theory Spec2Isabelle
  imports Main
begin

section \<open>JavaScript strings\<close>

text \<open>
  A string is modelled as the list of its UTF-16 code units, each below 256 (the Latin-1
  range, which is what an 8-bit \<open>char\<close> holds); the helpers below are the JavaScript
  string methods the services call, on that range.
\<close>

text \<open>White space as \<^verbatim>\<open>trim()\<close> and \<^verbatim>\<open>\s\<close> see it: tab to carriage return, space, no-break space.\<close>

definition isSpace :: "char \<Rightarrow> bool" where
  "isSpace c =
     (c \<in> set [CHR '' '', CHR 0x09, CHR 0x0A, CHR 0x0B, CHR 0x0C, CHR 0x0D, CHR 0xA0])"

definition isUpper :: "char \<Rightarrow> bool" where
  "isUpper c = (c \<in> set ''ABCDEFGHIJKLMNOPQRSTUVWXYZ'')"

definition isLower :: "char \<Rightarrow> bool" where
  "isLower c = (c \<in> set ''abcdefghijklmnopqrstuvwxyz'')"

definition isDigit :: "char \<Rightarrow> bool" where
  "isDigit c = (c \<in> set ''0123456789'')"

text \<open>The class \<^verbatim>\<open>\w\<close> of a regular expression.\<close>

definition isWord :: "char \<Rightarrow> bool" where
  "isWord c = (isUpper c \<or> isLower c \<or> isDigit c \<or> c = CHR ''_'')"

text \<open>The class \<^verbatim>\<open>[A-Za-z0-9_$]\<close>.\<close>

definition isIdentChar :: "char \<Rightarrow> bool" where
  "isIdentChar c = (isWord c \<or> c = CHR ''$'')"

text \<open>The upper-case letters of the range and their lower-case forms.\<close>

definition upperLetters :: string where
  "upperLetters = ''ABCDEFGHIJKLMNOPQRSTUVWXYZ'' @
     [CHR 0xC0, CHR 0xC1, CHR 0xC2, CHR 0xC3, CHR 0xC4, CHR 0xC5, CHR 0xC6, CHR 0xC7,
      CHR 0xC8, CHR 0xC9, CHR 0xCA, CHR 0xCB, CHR 0xCC, CHR 0xCD, CHR 0xCE, CHR 0xCF,
      CHR 0xD0, CHR 0xD1, CHR 0xD2, CHR 0xD3, CHR 0xD4, CHR 0xD5, CHR 0xD6, CHR 0xD8,
      CHR 0xD9, CHR 0xDA, CHR 0xDB, CHR 0xDC, CHR 0xDD, CHR 0xDE]"

definition lowerLetters :: string where
  "lowerLetters = ''abcdefghijklmnopqrstuvwxyz'' @
     [CHR 0xE0, CHR 0xE1, CHR 0xE2, CHR 0xE3, CHR 0xE4, CHR 0xE5, CHR 0xE6, CHR 0xE7,
      CHR 0xE8, CHR 0xE9, CHR 0xEA, CHR 0xEB, CHR 0xEC, CHR 0xED, CHR 0xEE, CHR 0xEF,
      CHR 0xF0, CHR 0xF1, CHR 0xF2, CHR 0xF3, CHR 0xF4, CHR 0xF5, CHR 0xF6, CHR 0xF8,
      CHR 0xF9, CHR 0xFA, CHR 0xFB, CHR 0xFC, CHR 0xFD, CHR 0xFE]"

definition lowerChar :: "char \<Rightarrow> char" where
  "lowerChar c = (case map_of (zip upperLetters lowerLetters) c of Some d \<Rightarrow> d | None \<Rightarrow> c)"

definition toLowerCase :: "string \<Rightarrow> string" where
  "toLowerCase s = map lowerChar s"

definition startsWith :: "string \<Rightarrow> string \<Rightarrow> bool" where
  "startsWith s p = (take (length p) s = p)"

definition includesStr :: "string \<Rightarrow> string \<Rightarrow> bool" where
  "includesStr s p = list_ex (\<lambda>i. startsWith (drop i s) p) [0..<Suc (length s)]"

definition trim :: "string \<Rightarrow> string" where
  "trim s = rev (dropWhile isSpace (rev (dropWhile isSpace s)))"

text \<open>\<^verbatim>\<open>s.split(c)\<close> for a one-character separator: never the empty list.\<close>

fun splitChar :: "char \<Rightarrow> string \<Rightarrow> string list" where
  "splitChar c [] = [[]]"
| "splitChar c (x # xs) =
     (if x = c then [] # splitChar c xs
      else (case splitChar c xs of
              [] \<Rightarrow> [[x]]
            | p # ps \<Rightarrow> (x # p) # ps))"

text \<open>\<^verbatim>\<open>parts.join(sep)\<close>.\<close>

fun join :: "string \<Rightarrow> string list \<Rightarrow> string" where
  "join sep [] = []"
| "join sep [x] = x"
| "join sep (x # y # ys) = x @ sep @ join sep (y # ys)"

section \<open>Regular expressions\<close>

text \<open>
  The services use JavaScript regular expressions without flags. A pattern is a value of
  \<open>rx\<close>; \<open>ends r s i\<close> lists the positions where a match of \<open>r\<close> that starts at
  position \<open>i\<close> of \<open>s\<close> can end, in the order in which the backtracking matcher tries
  them (greedy quantifiers first try the longest repetition).
\<close>

datatype rx =
    Atom "char \<Rightarrow> bool"
  | Eps
  | Seq rx rx
  | Alt rx rx
  | Star rx
  | Bol
  | Eol
  | Wordb

definition Lit :: "char \<Rightarrow> rx" where
  "Lit c = Atom (\<lambda>x. x = c)"

definition Plus :: "rx \<Rightarrow> rx" where
  "Plus r = Seq r (Star r)"

definition Opt :: "rx \<Rightarrow> rx" where
  "Opt r = Alt r Eps"

fun Str :: "string \<Rightarrow> rx" where
  "Str [] = Eps"
| "Str (c # cs) = Seq (Lit c) (Str cs)"

fun Alts :: "rx list \<Rightarrow> rx" where
  "Alts [] = Atom (\<lambda>x. False)"
| "Alts [r] = r"
| "Alts (r # rs) = Alt r (Alts rs)"

text \<open>Greedy repetition of a step; an iteration that consumes nothing is not repeated.\<close>

fun starFrom :: "(nat \<Rightarrow> nat list) \<Rightarrow> nat \<Rightarrow> nat \<Rightarrow> nat list" where
  "starFrom step 0 i = [i]"
| "starFrom step (Suc n) i =
     concat (map (starFrom step n) (filter (\<lambda>j. i < j) (step i))) @ [i]"

definition wordAt :: "string \<Rightarrow> nat \<Rightarrow> bool" where
  "wordAt s i = (i < length s \<and> isWord (s ! i))"

definition boundary :: "string \<Rightarrow> nat \<Rightarrow> bool" where
  "boundary s i = ((0 < i \<and> wordAt s (i - 1)) \<noteq> wordAt s i)"

fun ends :: "rx \<Rightarrow> string \<Rightarrow> nat \<Rightarrow> nat list" where
  "ends (Atom p) s i = (if i < length s \<and> p (s ! i) then [Suc i] else [])"
| "ends Eps s i = [i]"
| "ends (Seq a b) s i = concat (map (ends b s) (ends a s i))"
| "ends (Alt a b) s i = ends a s i @ ends b s i"
| "ends (Star a) s i = starFrom (ends a s) (length s - i) i"
| "ends Bol s i = (if i = 0 then [i] else [])"
| "ends Eol s i = (if i = length s then [i] else [])"
| "ends Wordb s i = (if boundary s i then [i] else [])"

text \<open>\<^verbatim>\<open>pattern.test(s)\<close>: some start position has a match.\<close>

definition test :: "rx \<Rightarrow> string \<Rightarrow> bool" where
  "test r s = list_ex (\<lambda>i. ends r s i \<noteq> []) [0..<Suc (length s)]"

text \<open>
  \<^verbatim>\<open>s.match(/pre(grp)post/)\<close>: the text of the capture group in the first match the
  backtracking matcher finds, leftmost start first.
\<close>

definition firstSome :: "('a \<Rightarrow> 'b option) \<Rightarrow> 'a list \<Rightarrow> 'b option" where
  "firstSome f xs = (case List.map_filter f xs of [] \<Rightarrow> None | y # _ \<Rightarrow> Some y)"

definition matchGroup :: "rx \<Rightarrow> rx \<Rightarrow> rx \<Rightarrow> string \<Rightarrow> string option" where
  "matchGroup pre grp post s =
     firstSome (\<lambda>i.
       firstSome (\<lambda>a.
         firstSome (\<lambda>b. if ends post s b \<noteq> [] then Some (take (b - a) (drop a s)) else None)
           (ends grp s a))
         (ends pre s i))
       [0..<Suc (length s)]"


fun Seqs :: "rx list \<Rightarrow> rx" where
  "Seqs [] = Eps"
| "Seqs [r] = r"
| "Seqs (r # rs) = Seq r (Seqs rs)"

text \<open>\<^verbatim>\<open>\s\<close>, \<^verbatim>\<open>\S\<close> and \<^verbatim>\<open>.\<close> (any character but a line terminator).\<close>

definition rxSpace :: rx where
  "rxSpace = Atom isSpace"

definition rxNonSpace :: rx where
  "rxNonSpace = Atom (\<lambda>c. \<not> isSpace c)"

definition rxDot :: rx where
  "rxDot = Atom (\<lambda>c. c \<noteq> CHR 0x0A \<and> c \<noteq> CHR 0x0D)"

text \<open>\<^verbatim>\<open>xs.slice(start, end)\<close>: a negative index counts from the end of the array.\<close>

definition slice :: "'a list \<Rightarrow> int \<Rightarrow> int \<Rightarrow> 'a list" where
  "slice xs s e =
     (let n = int (length xs);
          from = (if s < 0 then max 0 (n + s) else min s n);
          to = (if e < 0 then max 0 (n + e) else min e n)
      in take (nat (to - from)) (drop (nat from) xs))"

section \<open>Forge client: file context and import extraction (gitlab.service.ts)\<close>

record FileContentWithContext =
  lines :: "string list"
  startLineNumber :: int
  targetLineNumber :: int
  endLineNumber :: int
  totalLines :: int
  fileImports :: "string list"

text \<open>The language-specific import patterns of \<^verbatim>\<open>extractImports\<close>.\<close>

definition patternTs :: rx where
  "patternTs = Seqs [Bol, Star rxSpace, Alts [
     Seq (Str ''import'') (Plus rxSpace),
     Seqs [Str ''export'', Plus rxSpace, Lit CHR ''{''],
     Seqs [Str ''from'', Plus rxSpace, Atom (\<lambda>c. c = CHR 0x27 \<or> c = CHR 0x22)],
     Seqs [Str ''const'', Plus rxSpace, Star rxDot, Lit CHR ''='', Star rxSpace, Str ''require(''],
     Seqs [Str ''type'', Plus rxSpace, Lit CHR ''{'']]]"

definition patternJs :: rx where
  "patternJs = Seqs [Bol, Star rxSpace, Alts [
     Seq (Str ''import'') (Plus rxSpace),
     Seqs [Str ''export'', Plus rxSpace, Lit CHR ''{''],
     Seqs [Str ''from'', Plus rxSpace, Atom (\<lambda>c. c = CHR 0x27 \<or> c = CHR 0x22)],
     Seqs [Str ''const'', Plus rxSpace, Star rxDot, Lit CHR ''='', Star rxSpace, Str ''require('']]]"

definition patternPy :: rx where
  "patternPy = Seqs [Bol, Star rxSpace, Alts [
     Seq (Str ''import'') (Plus rxSpace),
     Seqs [Str ''from'', Plus rxSpace, Plus rxNonSpace, Plus rxSpace, Str ''import'', Plus rxSpace]]]"

definition patternJava :: rx where
  "patternJava = Seqs [Bol, Star rxSpace, Alts [
     Seq (Str ''import'') (Plus rxSpace),
     Seq (Str ''package'') (Plus rxSpace)]]"

definition patternGo :: rx where
  "patternGo = Seqs [Bol, Star rxSpace, Str ''import'', Plus rxSpace,
     Atom (\<lambda>c. c = CHR ''('' \<or> c = CHR 0x22 \<or> c = CHR 0x27)]"

definition patternRs :: rx where
  "patternRs = Seqs [Bol, Star rxSpace, Str ''use'', Plus rxSpace]"

definition patternPhp :: rx where
  "patternPhp = Seqs [Bol, Star rxSpace, Alts [
     Seq (Str ''use'') (Plus rxSpace),
     Str ''require'',
     Str ''include'']]"

definition patterns :: "(string \<times> rx) list" where
  "patterns = [(''ts'', patternTs), (''js'', patternJs), (''py'', patternPy),
     (''java'', patternJava), (''go'', patternGo), (''rs'', patternRs), (''php'', patternPhp)]"

text \<open>
  The tables of the services are object literals, so a lookup also finds the members they
  inherit from \<^verbatim>\<open>Object.prototype\<close>. Each of them holds a function or an object: a
  truthy value, which \<^verbatim>\<open>||\<close> keeps.
\<close>

definition objectPrototypeMembers :: "string list" where
  "objectPrototypeMembers = [''constructor'', ''__defineGetter__'', ''__defineSetter__'',
     ''hasOwnProperty'', ''__lookupGetter__'', ''__lookupSetter__'', ''isPrototypeOf'',
     ''propertyIsEnumerable'', ''toString'', ''valueOf'', ''__proto__'', ''toLocaleString'']"

definition inherited :: "string \<Rightarrow> bool" where
  "inherited key = (key \<in> set objectPrototypeMembers)"

text \<open>
  \<^verbatim>\<open>patterns[ext] || patterns['ts']\<close>. For an inherited member the result is not a
  regular expression (\<open>None\<close> here), and the first \<^verbatim>\<open>pattern.test\<close> on it throws a
  TypeError.
\<close>

definition patternFor :: "string \<Rightarrow> rx option" where
  "patternFor ext =
     (case map_of patterns ext of
        Some r \<Rightarrow> Some r
      | None \<Rightarrow> if inherited ext then None else Some patternTs)"

text \<open>\<^verbatim>\<open>filePath.split('.').pop()?.toLowerCase() || ''\<close>.\<close>

definition fileExt :: "string \<Rightarrow> string" where
  "fileExt filePath = toLowerCase (last (splitChar CHR ''.'' filePath))"

text \<open>
  The scanning loop of \<^verbatim>\<open>extractImports\<close> over the lines still to visit, with the
  counter \<^verbatim>\<open>consecutiveNonImports\<close> and the imports collected so far. \<open>None\<close> is the
  TypeError of a pattern that is not a regular expression.
\<close>

fun scanImports :: "rx option \<Rightarrow> string list \<Rightarrow> nat \<Rightarrow> string list \<Rightarrow> string list option" where
  "scanImports p [] n acc = Some acc"
| "scanImports p (l # ls) n acc =
     (let line = trim l in
      if line = [] \<or> startsWith line ''//'' \<or> startsWith line ''/*''
         \<or> startsWith line ''*'' \<or> startsWith line ''#''
      then scanImports p ls n acc
      else (case p of
              None \<Rightarrow> None
            | Some r \<Rightarrow>
                if test r line then scanImports p ls 0 (acc @ [l])
                else if 3 \<le> Suc n then Some acc
                else scanImports p ls (Suc n) acc))"

definition extractImports :: "string list \<Rightarrow> string \<Rightarrow> string list option" where
  "extractImports ls filePath = scanImports (patternFor (fileExt filePath)) (take 50 ls) 0 []"

text \<open>
  The forge itself is outside the repository: \<open>fetchFile path sha\<close> is the decoded
  content that \<^verbatim>\<open>RepositoryFiles.show\<close> delivers, \<open>None\<close> when the request fails.
\<close>

type_synonym forge = "string \<Rightarrow> string \<Rightarrow> string option"

definition fetchFailure :: "int \<Rightarrow> FileContentWithContext" where
  "fetchFailure lineNumber =
     \<lparr> lines = [], startLineNumber = 0, targetLineNumber = lineNumber,
       endLineNumber = 0, totalLines = 0, fileImports = [] \<rparr>"

definition getFileContentWithContext ::
  "forge \<Rightarrow> string \<Rightarrow> string \<Rightarrow> int \<Rightarrow> int \<Rightarrow> FileContentWithContext" where
  "getFileContentWithContext fetchFile filePath sha lineNumber contextLines =
     (case fetchFile filePath sha of
        None \<Rightarrow> fetchFailure lineNumber
      | Some content \<Rightarrow>
          (let ls = splitChar CHR 0x0A content in
           case extractImports ls filePath of
             None \<Rightarrow> fetchFailure lineNumber
           | Some imps \<Rightarrow>
               (let startLine = max 0 (lineNumber - contextLines - 1);
                    endLine = min (int (length ls)) (lineNumber + contextLines)
                in \<lparr> lines = slice ls startLine endLine,
                     startLineNumber = startLine + 1,
                     targetLineNumber = lineNumber,
                     endLineNumber = endLine,
                     totalLines = int (length ls),
                     fileImports = imps \<rparr>)))"

text \<open>\<^verbatim>\<open>getFileContent\<close>: the whole file, the failure rethrown (\<open>None\<close>).\<close>

definition getFileContent :: "forge \<Rightarrow> string \<Rightarrow> string \<Rightarrow> string option" where
  "getFileContent fetchFile filePath sha = fetchFile filePath sha"

text \<open>The invariant the data model states for a file context.\<close>

definition contextInvariant :: "FileContentWithContext \<Rightarrow> bool" where
  "contextInvariant c =
     (startLineNumber c \<le> targetLineNumber c \<and> targetLineNumber c \<le> endLineNumber c
      \<and> int (length (lines c)) = endLineNumber c - startLineNumber c + 1)"

section \<open>Diff Processor (diff-processor.ts)\<close>

text \<open>
  The unified diff is parsed by the library \<^verbatim>\<open>parse-diff\<close>; the processor works on its
  output: files, each with chunks, each chunk a list of changes.
\<close>

datatype ChangeType = Normal | Add | Del

record Change =
  ctype :: ChangeType
  content :: string
  ln :: int

record ParsedFile =
  fileTo :: string
  fileFrom :: string
  binary :: bool
  deleted :: bool
  chunks :: "Change list list"

text \<open>The local variables of \<^verbatim>\<open>processChunk\<close>.\<close>

record ChunkAcc =
  result :: "string list"
  changedLinesAcc :: "int list"
  additionsAcc :: nat
  deletionsAcc :: nat
  hasChangesAcc :: bool
  addedIndices :: "nat set"

definition pushNormal :: "Change list \<Rightarrow> nat \<Rightarrow> ChunkAcc \<Rightarrow> ChunkAcc" where
  "pushNormal ls j st =
     st\<lparr> result := result st @ [CHR '' '' # content (ls ! j)],
         addedIndices := insert j (addedIndices st) \<rparr>"

text \<open>The loop over the context before an addition: \<open>j\<close> from \<open>max(0, i - contextLines)\<close> up to \<open>i\<close>.\<close>

definition contextBefore :: "Change list \<Rightarrow> nat list \<Rightarrow> ChunkAcc \<Rightarrow> ChunkAcc" where
  "contextBefore ls js st =
     fold (\<lambda>j st. if j \<notin> addedIndices st \<and> ctype (ls ! j) = Normal then pushNormal ls j st else st)
       js st"

text \<open>The loop over the context after an addition; it stops at the next change.\<close>

fun contextAfter :: "Change list \<Rightarrow> nat list \<Rightarrow> ChunkAcc \<Rightarrow> ChunkAcc" where
  "contextAfter ls [] st = st"
| "contextAfter ls (j # js) st =
     (if j \<in> addedIndices st then contextAfter ls js st
      else (case ctype (ls ! j) of
              Normal \<Rightarrow> contextAfter ls js (pushNormal ls j st)
            | Add \<Rightarrow> st
            | Del \<Rightarrow> st))"

text \<open>One iteration of the main loop, at index \<open>i < length ls\<close>.\<close>

definition chunkStep :: "Change list \<Rightarrow> int \<Rightarrow> nat \<Rightarrow> ChunkAcc \<Rightarrow> ChunkAcc" where
  "chunkStep ls contextLines i st =
     (case ctype (ls ! i) of
        Add \<Rightarrow>
          (let st1 = st\<lparr> additionsAcc := additionsAcc st + 1, hasChangesAcc := True,
                          changedLinesAcc := changedLinesAcc st @ [ln (ls ! i)] \<rparr>;
               st2 = contextBefore ls [nat (max 0 (int i - contextLines))..<i] st1;
               st3 = st2\<lparr> result := result st2 @ [CHR ''+'' # content (ls ! i)],
                           addedIndices := insert i (addedIndices st2) \<rparr>
           in contextAfter ls
                [i + 1..<nat (min (int (length ls)) (int i + contextLines + 1))] st3)
      | Del \<Rightarrow>
          st\<lparr> deletionsAcc := deletionsAcc st + 1, hasChangesAcc := True,
              result := result st @ [CHR ''-'' # content (ls ! i)],
              addedIndices := insert i (addedIndices st) \<rparr>
      | Normal \<Rightarrow> st)"

definition chunkInit :: ChunkAcc where
  "chunkInit = \<lparr> result = [], changedLinesAcc = [], additionsAcc = 0, deletionsAcc = 0,
                 hasChangesAcc = False, addedIndices = {} \<rparr>"

definition chunkLoop :: "Change list \<Rightarrow> int \<Rightarrow> ChunkAcc" where
  "chunkLoop ls contextLines = fold (chunkStep ls contextLines) [0..<length ls] chunkInit"

definition maxLines :: int where
  "maxLines = 100"

record ProcessedChunk =
  chunkContent :: string
  hasChanges :: bool
  chunkAdditions :: nat
  chunkDeletions :: nat
  chunkChangedLines :: "int list"

text \<open>The lines of the chunk text: \<^verbatim>\<open>result.slice(0, maxLines)\<close>.\<close>

definition chunkTextLines :: "Change list \<Rightarrow> int \<Rightarrow> string list" where
  "chunkTextLines ls contextLines = slice (result (chunkLoop ls contextLines)) 0 maxLines"

definition processChunk :: "Change list \<Rightarrow> int \<Rightarrow> ProcessedChunk" where
  "processChunk ls contextLines =
     (let st = chunkLoop ls contextLines in
      \<lparr> chunkContent = join [CHR 0x0A] (chunkTextLines ls contextLines),
        hasChanges = hasChangesAcc st,
        chunkAdditions = additionsAcc st,
        chunkDeletions = deletionsAcc st,
        chunkChangedLines = changedLinesAcc st \<rparr>)"

record ProcessedDiff =
  filename :: string
  language :: "string option"
  hunks :: string
  additions :: nat
  deletions :: nat
  changedLines :: "int list"

definition langMap :: "(string \<times> string) list" where
  "langMap = [(''ts'', ''typescript''), (''tsx'', ''typescript''), (''js'', ''javascript''),
     (''jsx'', ''javascript''), (''py'', ''python''), (''java'', ''java''), (''go'', ''go''),
     (''rs'', ''rust''), (''cpp'', ''cpp''), (''c'', ''c''), (''cs'', ''csharp''),
     (''rb'', ''ruby''), (''php'', ''php''), (''swift'', ''swift''), (''kt'', ''kotlin''),
     (''sql'', ''sql''), (''sh'', ''bash''), (''yaml'', ''yaml''), (''yml'', ''yaml''),
     (''json'', ''json''), (''md'', ''markdown'')]"

text \<open>
  \<^verbatim>\<open>langMap[ext || ''] || 'unknown'\<close>. For an extension that names an inherited member
  of the table the result is that member, not a string: \<open>None\<close>.
\<close>

definition detectLanguage :: "string \<Rightarrow> string option" where
  "detectLanguage filepath =
     (case map_of langMap (fileExt filepath) of
        Some l \<Rightarrow> Some l
      | None \<Rightarrow> if inherited (fileExt filepath) then None else Some ''unknown'')"

text \<open>\<^verbatim>\<open>a || b\<close> on strings: the empty string is falsy.\<close>

definition orElse :: "string \<Rightarrow> string \<Rightarrow> string" where
  "orElse a b = (if a = [] then b else a)"

definition fileChunks :: "int \<Rightarrow> ParsedFile \<Rightarrow> ProcessedDiff list" where
  "fileChunks contextLines file =
     (if binary file \<or> deleted file then []
      else concat (map (\<lambda>chunk.
             (let processedChunk = processChunk chunk contextLines in
              if hasChanges processedChunk
              then [\<lparr> filename = orElse (fileTo file) (orElse (fileFrom file) ''unknown''),
                      language = detectLanguage (fileTo file),
                      hunks = chunkContent processedChunk,
                      additions = chunkAdditions processedChunk,
                      deletions = chunkDeletions processedChunk,
                      changedLines = chunkChangedLines processedChunk \<rparr>]
              else [])) (chunks file)))"

text \<open>
  \<open>parseDiff\<close> stands for the library; \<open>None\<close> is a parse that throws, which the
  processor turns into no chunks.
\<close>

definition extractChangedLinesWithContext ::
  "(string \<Rightarrow> ParsedFile list option) \<Rightarrow> string \<Rightarrow> int \<Rightarrow> ProcessedDiff list" where
  "extractChangedLinesWithContext parseDiff diff contextLines =
     (case parseDiff diff of
        None \<Rightarrow> []
      | Some files \<Rightarrow> concat (map (fileChunks contextLines) files))"

text \<open>A line of the chunk text that renders an addition starts with \<open>+\<close>.\<close>

definition isPlusLine :: "string \<Rightarrow> bool" where
  "isPlusLine l = (take 1 l = ''+'')"

definition isAdd :: "Change \<Rightarrow> bool" where
  "isAdd c = (ctype c = Add)"

definition plusLine :: "Change \<Rightarrow> string" where
  "plusLine c = CHR ''+'' # content c"

text \<open>A chunk of 101 additions on the new-file lines 1 to 101; only the last one reads \<open>b\<close>.\<close>

definition longChunk :: "Change list" where
  "longChunk = map (\<lambda>k. \<lparr> ctype = Add, content = ''a'', ln = int k + 1 \<rparr>) [0..<100]
     @ [\<lparr> ctype = Add, content = ''b'', ln = 101 \<rparr>]"


text \<open>A parser that reads every diff as one file whose single chunk is \<open>longChunk\<close>.\<close>

definition longDiffParser :: "string \<Rightarrow> ParsedFile list option" where
  "longDiffParser d = Some [\<lparr> fileTo = ''b.ts'', fileFrom = ''a.ts'', binary = False,
     deleted = False, chunks = [longChunk] \<rparr>]"

text \<open>A parser that reads every diff as one file with one context line, one added and one removed line.\<close>

definition smallDiffParser :: "string \<Rightarrow> ParsedFile list option" where
  "smallDiffParser d = Some [\<lparr> fileTo = ''b.ts'', fileFrom = ''a.ts'', binary = False,
     deleted = False,
     chunks = [[\<lparr> ctype = Normal, content = ''x'', ln = 0 \<rparr>,
                \<lparr> ctype = Add, content = ''y'', ln = 2 \<rparr>,
                \<lparr> ctype = Del, content = ''z'', ln = 3 \<rparr>]] \<rparr>]"

definition smallChunk :: ProcessedDiff where
  "smallChunk = \<lparr> filename = ''b.ts'', language = Some ''typescript'',
     hunks = '' x'' @ [CHR 0x0A] @ ''+y'' @ [CHR 0x0A] @ ''-z'',
     additions = 1, deletions = 1, changedLines = [2] \<rparr>"

section \<open>Issue Verifier (issue-verifier.service.ts)\<close>

record CodeIssue =
  issueFile :: string
  line :: int
  severity :: string
  issueType :: string
  message :: string
  suggestion :: string

datatype Confidence = High | Medium | Low

text \<open>The \<^verbatim>\<open>reason\<close> texts of a verification result, with the values they interpolate.\<close>

datatype Reason =
    NotVerifiedSecurityPerformance
  | NoVerificationRequired
  | CannotParseImportName
  | ImportAlreadyPresent string
  | ImportInFullFile string
  | ImportNotPresent string
  | CannotFetchFullFile
  | CannotParseIdentifier
  | DefinedInContext string
  | DefinedInExtendedContext string
  | ImportedAtTop string
  | NotDefinedAnywhere string
  | CannotFetchExtendedContext
  | NoImportsContext
  | NotADuplicate string nat
  | GenuineDuplicate string nat

record VerificationResult =
  isValid :: bool
  confidence :: Confidence
  reason :: Reason

record VerificationContext =
  filePath :: string
  sha :: string
  fileContext :: "FileContentWithContext option"

definition isImportIssue :: "string \<Rightarrow> bool" where
  "isImportIssue msg =
     (let lowerMessage = toLowerCase msg in
      includesStr lowerMessage ''import'' \<or> includesStr lowerMessage ''not imported''
      \<or> includesStr lowerMessage ''missing import'' \<or> includesStr lowerMessage ''cannot find'')"

definition isDefinitionIssue :: "string \<Rightarrow> bool" where
  "isDefinitionIssue msg =
     (let lowerMessage = toLowerCase msg in
      includesStr lowerMessage ''not defined'' \<or> includesStr lowerMessage ''undefined''
      \<or> includesStr lowerMessage ''not declared'' \<or> includesStr lowerMessage ''cannot find name'')"

text \<open>The class of the three quote characters, \<^verbatim>\<open>['"`]\<close>.\<close>

definition rxQuote :: rx where
  "rxQuote = Atom (\<lambda>c. c = CHR 0x27 \<or> c = CHR 0x22 \<or> c = CHR 0x60)"

text \<open>\<^verbatim>\<open>/['"`]([A-Za-z0-9_$]+)['"`]/\<close>, the capture group.\<close>

definition quotedMatch :: "string \<Rightarrow> string option" where
  "quotedMatch msg = matchGroup rxQuote (Plus (Atom isIdentChar)) rxQuote msg"

text \<open>\<^verbatim>\<open>/\b(import\s+)?([A-Z][A-Za-z0-9_$]*)\b/\<close>, the second capture group.\<close>

definition extractImportName :: "string \<Rightarrow> string option" where
  "extractImportName msg =
     (case quotedMatch msg of
        Some name \<Rightarrow> Some name
      | None \<Rightarrow>
          matchGroup (Seq Wordb (Opt (Seq (Str ''import'') (Plus rxSpace))))
            (Seq (Atom isUpper) (Star (Atom isIdentChar))) Wordb msg)"

text \<open>\<^verbatim>\<open>/\b([a-z][A-Za-z0-9_$]*)\b/\<close> after the quoted form.\<close>

definition extractIdentifier :: "string \<Rightarrow> string option" where
  "extractIdentifier msg =
     (case quotedMatch msg of
        Some name \<Rightarrow> Some name
      | None \<Rightarrow> matchGroup Wordb (Seq (Atom isLower) (Star (Atom isIdentChar))) Wordb msg)"

text \<open>\<^verbatim>\<open>const [name] = imp.split(' as ')\<close>: the text before the first separator.\<close>

fun beforeFirst :: "string \<Rightarrow> string \<Rightarrow> string" where
  "beforeFirst sep [] = []"
| "beforeFirst sep (x # xs) = (if startsWith (x # xs) sep then [] else x # beforeFirst sep xs)"

definition matchesImport :: "string \<Rightarrow> string \<Rightarrow> bool" where
  "matchesImport importStatement importName =
     (if includesStr importStatement importName then True
      else (case matchGroup (Seq (Lit CHR ''{'') (Star rxSpace)) (Plus (Atom (\<lambda>c. c \<noteq> CHR ''}'')))
                   (Seq (Star rxSpace) (Lit CHR ''}'')) importStatement of
              Some names \<Rightarrow>
                list_ex (\<lambda>imp. trim (beforeFirst '' as '' imp) = importName)
                  (map trim (splitChar CHR '','' names))
            | None \<Rightarrow> False))"

text \<open>
  The identifier is spliced into the source of each pattern. It is one the extractors
  returned, so its characters are letters, digits, \<open>_\<close> and \<open>$\<close>; in a pattern a \<open>$\<close> is
  the end-of-input assertion.
\<close>

definition rxIdent :: "string \<Rightarrow> rx" where
  "rxIdent identifier = Seqs (map (\<lambda>c. if c = CHR ''$'' then Eol else Lit c) identifier)"

definition matchesDefinition :: "string \<Rightarrow> string \<Rightarrow> bool" where
  "matchesDefinition l identifier =
     (if test (Seqs [Wordb, Alts [Str ''const'', Str ''let'', Str ''var''], Plus rxSpace,
                     rxIdent identifier, Wordb]) l then True
      else if test (Seqs [Wordb, Str ''function'', Plus rxSpace, rxIdent identifier, Wordb]) l then True
      else if test (Seqs [Wordb, rxIdent identifier, Star rxSpace, Lit CHR ''='', Star rxSpace,
                          Lit CHR ''('']) l then True
      else if test (Seqs [Wordb, Alts [Str ''class'', Str ''interface'', Str ''type'', Str ''enum''],
                          Plus rxSpace, rxIdent identifier, Wordb]) l then True
      else False)"

text \<open>\<^verbatim>\<open>context.fileContext?.imports\<close> when it is a non-empty array.\<close>

definition contextImports :: "VerificationContext \<Rightarrow> string list" where
  "contextImports ctx = (case fileContext ctx of None \<Rightarrow> [] | Some fc \<Rightarrow> fileImports fc)"

definition contextLinesOf :: "VerificationContext \<Rightarrow> string list" where
  "contextLinesOf ctx = (case fileContext ctx of None \<Rightarrow> [] | Some fc \<Rightarrow> lines fc)"

definition verifyDuplicateImportClaim :: "string \<Rightarrow> VerificationContext \<Rightarrow> VerificationResult" where
  "verifyDuplicateImportClaim importName ctx =
     (if contextImports ctx = []
      then \<lparr> isValid = True, confidence = Low, reason = NoImportsContext \<rparr>
      else (let count = length (filter (\<lambda>imp. matchesImport imp importName) (contextImports ctx)) in
            if count \<le> 1
            then \<lparr> isValid = False, confidence = High, reason = NotADuplicate importName count \<rparr>
            else \<lparr> isValid = True, confidence = High, reason = GenuineDuplicate importName count \<rparr>))"

definition verifyImportIssue :: "forge \<Rightarrow> CodeIssue \<Rightarrow> VerificationContext \<Rightarrow> VerificationResult" where
  "verifyImportIssue fetchFile issue ctx =
     (case extractImportName (message issue) of
        None \<Rightarrow> \<lparr> isValid = True, confidence = Low, reason = CannotParseImportName \<rparr>
      | Some importName \<Rightarrow>
          if includesStr (toLowerCase (message issue)) ''duplicate''
          then verifyDuplicateImportClaim importName ctx
          else if contextImports ctx \<noteq> []
                  \<and> list_ex (\<lambda>imp. matchesImport imp importName) (contextImports ctx)
          then \<lparr> isValid = False, confidence = High, reason = ImportAlreadyPresent importName \<rparr>
          else (case getFileContent fetchFile (filePath ctx) (sha ctx) of
                  None \<Rightarrow> \<lparr> isValid = True, confidence = Low, reason = CannotFetchFullFile \<rparr>
                | Some fullFile \<Rightarrow>
                    if matchesImport fullFile importName
                    then \<lparr> isValid = False, confidence = High, reason = ImportInFullFile importName \<rparr>
                    else \<lparr> isValid = True, confidence = High, reason = ImportNotPresent importName \<rparr>))"

text \<open>
  The extended context is asked of \<open>getFileContentWithContext\<close>, which catches a failed
  fetch itself and returns the empty context; nothing else in the \<^verbatim>\<open>try\<close> block
  throws, so the \<^verbatim>\<open>catch\<close> branch of \<^verbatim>\<open>verifyDefinitionIssue\<close> (low
  confidence, \<open>CannotFetchExtendedContext\<close>) has no path leading to it.
\<close>

definition verifyDefinitionIssue :: "forge \<Rightarrow> CodeIssue \<Rightarrow> VerificationContext \<Rightarrow> VerificationResult" where
  "verifyDefinitionIssue fetchFile issue ctx =
     (case extractIdentifier (message issue) of
        None \<Rightarrow> \<lparr> isValid = True, confidence = Low, reason = CannotParseIdentifier \<rparr>
      | Some identifier \<Rightarrow>
          if contextLinesOf ctx \<noteq> []
             \<and> list_ex (\<lambda>l. matchesDefinition l identifier) (contextLinesOf ctx)
          then \<lparr> isValid = False, confidence = High, reason = DefinedInContext identifier \<rparr>
          else (let extendedContext =
                      getFileContentWithContext fetchFile (filePath ctx) (sha ctx) (line issue) 50 in
                if list_ex (\<lambda>l. matchesDefinition l identifier) (lines extendedContext)
                then \<lparr> isValid = False, confidence = High,
                       reason = DefinedInExtendedContext identifier \<rparr>
                else if list_ex (\<lambda>imp. includesStr imp identifier) (fileImports extendedContext)
                then \<lparr> isValid = False, confidence = High, reason = ImportedAtTop identifier \<rparr>
                else \<lparr> isValid = True, confidence = High, reason = NotDefinedAnywhere identifier \<rparr>))"

definition verifyIssue :: "forge \<Rightarrow> CodeIssue \<Rightarrow> VerificationContext \<Rightarrow> VerificationResult" where
  "verifyIssue fetchFile issue ctx =
     (if isImportIssue (message issue) then verifyImportIssue fetchFile issue ctx
      else if isDefinitionIssue (message issue) then verifyDefinitionIssue fetchFile issue ctx
      else if issueType issue = ''security'' \<or> issueType issue = ''performance''
      then \<lparr> isValid = True, confidence = High, reason = NotVerifiedSecurityPerformance \<rparr>
      else \<lparr> isValid = True, confidence = Medium, reason = NoVerificationRequired \<rparr>)"

text \<open>A forge whose every file request fails, and one that serves the same content for every file.\<close>

definition failingForge :: forge where
  "failingForge p s = None"

definition constForge :: "string \<Rightarrow> forge" where
  "constForge body p s = Some body"

text \<open>Example inputs of the verifier.\<close>

definition undefinedIssue :: CodeIssue where
  "undefinedIssue = \<lparr> issueFile = ''a.ts'', line = 5, severity = ''high'', issueType = ''logic'',
     message = ''foo is not defined'', suggestion = ''declare foo'' \<rparr>"

definition missingImportIssue :: CodeIssue where
  "missingImportIssue = \<lparr> issueFile = ''a.ts'', line = 5, severity = ''high'', issueType = ''logic'',
     message = ''missing import Foo'', suggestion = ''import Foo'' \<rparr>"

definition securityImportIssue :: CodeIssue where
  "securityImportIssue = \<lparr> issueFile = ''a.ts'', line = 5, severity = ''high'',
     issueType = ''security'', message = ''hardcoded Secret in import'',
     suggestion = ''load it from the environment'' \<rparr>"

definition injectionIssue :: CodeIssue where
  "injectionIssue = \<lparr> issueFile = ''a.ts'', line = 5, severity = ''critical'',
     issueType = ''security'', message = ''SQL injection'', suggestion = ''bind the parameter'' \<rparr>"

definition noContext :: VerificationContext where
  "noContext = \<lparr> filePath = ''a.ts'', sha = ''abc'', fileContext = None \<rparr>"

definition secretContext :: VerificationContext where
  "secretContext = \<lparr> filePath = ''a.ts'', sha = ''abc'',
     fileContext = Some \<lparr> lines = [''const key = Secret''], startLineNumber = 5,
       targetLineNumber = 5, endLineNumber = 5, totalLines = 9,
       fileImports = [''import Secret from x''] \<rparr> \<rparr>"

definition securityUndefinedIssue :: CodeIssue where
  "securityUndefinedIssue = \<lparr> issueFile = ''a.ts'', line = 5, severity = ''high'',
     issueType = ''security'', message = ''token is undefined'',
     suggestion = ''check the token'' \<rparr>"

definition tokenContext :: VerificationContext where
  "tokenContext = \<lparr> filePath = ''a.ts'', sha = ''abc'',
     fileContext = Some \<lparr> lines = [''const token = 1''], startLineNumber = 5,
       targetLineNumber = 5, endLineNumber = 5, totalLines = 9, fileImports = [] \<rparr> \<rparr>"

section \<open>The job's surroundings\<close>

text \<open>
  A chunk as the orchestrator hands it to the LLM service: the processed diff, the old
  path and the file context attached to it.
\<close>

record ReviewChunk = ProcessedDiff +
  oldPath :: string
  chunkContext :: "FileContentWithContext option"

datatype LlmRequest = Single ReviewChunk | Batched "ReviewChunk list"

text \<open>
  One call of the chat-completion endpoint fails with an error of the client
  (\<open>CallFails\<close>), delivers a response without a \<^verbatim>\<open>choices\<close> array, on which
  \<^verbatim>\<open>response.choices[0]\<close> throws a TypeError (\<open>Malformed\<close>), or delivers
  \<^verbatim>\<open>response.choices[0]?.message?.content\<close>, which may be missing.
\<close>

datatype LlmOutcome = CallFails | Malformed | Reply "string option"

text \<open>
  \<^verbatim>\<open>JSON.parse\<close> is not part of the repository. A parsed document is modelled by what
  the service reads from it: the summary and the issues, each field possibly missing; a
  field that is present is taken to hold a string. \<open>rawLine\<close> is the number
  \<^verbatim>\<open>parseInt\<close> reads from \<^verbatim>\<open>issue.line\<close>, if any.
\<close>

record RawIssue =
  rawFile :: "string option"
  rawLine :: "int option"
  rawSeverity :: "string option"
  rawType :: "string option"
  rawMessage :: "string option"
  rawSuggestion :: "string option"

record RawReview =
  rawSummary :: "string option"
  rawIssues :: "RawIssue list option"

record MrDetails =
  baseSha :: string
  headSha :: string
  startSha :: string

record GitLabDiff =
  new_path :: string
  old_path :: string
  diffText :: string

text \<open>
  Everything outside the process: the LLM endpoint (asked with the request and the
  number of calls made so far, so that a retry can be answered differently), the JSON
  and diff parsers, the forge (\<open>None\<close> is a request that fails), and whether the
  database accepts a review whose score is \<open>NaN\<close> (the schema and the database client
  are not part of the sources).
\<close>

record Env =
  enabled :: bool
  chatCompletion :: "LlmRequest \<Rightarrow> nat \<Rightarrow> LlmOutcome"
  jsonParse :: "string \<Rightarrow> RawReview option"
  diffParser :: "string \<Rightarrow> ParsedFile list option"
  repositoryFile :: forge
  mergeRequestShow :: "MrDetails option"
  repositoriesCompare :: "string \<Rightarrow> string \<Rightarrow> GitLabDiff list option"
  noteCreate :: bool
  acceptsNaN :: bool

datatype ReviewStatus = PENDING | PROCESSING | COMPLETED | FAILED | SKIPPED

datatype ReviewContent = EmptyContent | NoChangesToReview | IssuesContent "CodeIssue list"

text \<open>
  The score is a JavaScript number: an integer, or \<open>NaN\<close> once something that is not a
  number has been subtracted from it.
\<close>

datatype JsNumber = Num int | NaN

definition jsPlus :: "JsNumber \<Rightarrow> JsNumber \<Rightarrow> JsNumber" where
  "jsPlus a b = (case (a, b) of (Num x, Num y) \<Rightarrow> Num (x + y) | _ \<Rightarrow> NaN)"

definition jsMinus :: "JsNumber \<Rightarrow> JsNumber \<Rightarrow> JsNumber" where
  "jsMinus a b = (case (a, b) of (Num x, Num y) \<Rightarrow> Num (x - y) | _ \<Rightarrow> NaN)"

text \<open>\<^verbatim>\<open>Math.max(0, a)\<close> and \<^verbatim>\<open>a >= n\<close>.\<close>

definition mathMax0 :: "JsNumber \<Rightarrow> JsNumber" where
  "mathMax0 a = (case a of Num x \<Rightarrow> Num (max 0 x) | NaN \<Rightarrow> NaN)"

definition jsGe :: "JsNumber \<Rightarrow> int \<Rightarrow> bool" where
  "jsGe a n = (case a of Num x \<Rightarrow> n \<le> x | NaN \<Rightarrow> False)"

record ReviewRow =
  status :: ReviewStatus
  reviewContent :: ReviewContent
  qualityScore :: JsNumber
  issuesFound :: nat
  suggestionsCount :: nat

text \<open>The text of an inline comment is a template; the model keeps what it interpolates.\<close>

record InlineComment =
  commentIssue :: CodeIssue
  commentFile :: string
  codeSnippet :: string
  commentLanguage :: "string option"

record InlineCommentData =
  postFilePath :: string
  postOldPath :: string
  postLine :: int
  postComment :: InlineComment
  postBaseSha :: string
  postHeadSha :: string
  postStartSha :: string

datatype ScoreBand = Good | Fair | Poor

text \<open>
  The summary comment, likewise: the metrics table, the large-MR warning and the issues
  from which the sections by category and by file are rendered.
\<close>

record SummaryComment =
  scoreBand :: ScoreBand
  scoreCell :: string
  filesReviewed :: nat
  totalIssues :: nat
  criticalCount :: nat
  highCount :: nat
  mediumCount :: nat
  lowCount :: nat
  largeMrWarning :: "(int \<times> int) option"
  listedIssues :: "CodeIssue list"
  inlineNotice :: bool

text \<open>
  The effects of one job: the review row, the calls of the LLM endpoint, the calls of the
  two review operations, the issues handed to the verifier, the inline discussions
  attempted and the notes posted.
\<close>

record World =
  review :: ReviewRow
  llmAttempts :: "LlmRequest list"
  llmCalls :: "LlmRequest list"
  verifyCalls :: "(CodeIssue \<times> VerificationContext) list"
  inlinePosts :: "InlineCommentData list"
  mrNotes :: "SummaryComment list"

section \<open>LLM service (llm.service.ts)\<close>

record CodeReviewResult =
  summary :: string
  issues :: "CodeIssue list"

text \<open>
  What one run of a retried function is to the library p-retry: it resolves, it rejects
  with an error that is retried, or it rejects with a TypeError that is not a network
  error, which ends the retrying at once.
\<close>

datatype 'a Attempt = Done 'a | Failed | Aborted

text \<open>
  \<^verbatim>\<open>pRetry(run, {retries})\<close>: \<open>run\<close> is tried again after a failure while retries
  are left, so it runs at most \<open>retries + 1\<close> times; \<open>None\<close> is the rejection of the
  whole.
\<close>

fun pRetry :: "nat \<Rightarrow> (World \<Rightarrow> 'a Attempt \<times> World) \<Rightarrow> World \<Rightarrow> 'a option \<times> World" where
  "pRetry 0 run w =
     (case run w of
        (Done r, w') \<Rightarrow> (Some r, w')
      | (Failed, w') \<Rightarrow> (None, w')
      | (Aborted, w') \<Rightarrow> (None, w'))"
| "pRetry (Suc retries) run w =
     (case run w of
        (Done r, w') \<Rightarrow> (Some r, w')
      | (Failed, w') \<Rightarrow> pRetry retries run w'
      | (Aborted, w') \<Rightarrow> (None, w'))"

text \<open>The function retried: one call of the endpoint; an empty answer is thrown as an error.\<close>

definition completion :: "Env \<Rightarrow> LlmRequest \<Rightarrow> World \<Rightarrow> string Attempt \<times> World" where
  "completion env req w =
     (let w' = w\<lparr> llmAttempts := llmAttempts w @ [req] \<rparr> in
      case chatCompletion env req (length (llmAttempts w)) of
        CallFails \<Rightarrow> (Failed, w')
      | Malformed \<Rightarrow> (Aborted, w')
      | Reply None \<Rightarrow> (Failed, w')
      | Reply (Some c) \<Rightarrow> if c = [] then (Failed, w') else (Done c, w'))"

text \<open>
  \<^verbatim>\<open>s.replace(/FENCE\n?/g, '')\<close> for a non-empty literal \<open>fence\<close>: the counter is the
  number of characters of the current match still to drop.
\<close>

fun removeFence :: "string \<Rightarrow> nat \<Rightarrow> string \<Rightarrow> string" where
  "removeFence fence k [] = []"
| "removeFence fence (Suc k) (x # xs) = removeFence fence k xs"
| "removeFence fence 0 (x # xs) =
     (if startsWith (x # xs) fence
      then removeFence fence
             (length fence - 1
              + (if startsWith (drop (length fence) (x # xs)) [CHR 0x0A] then 1 else 0)) xs
      else x # removeFence fence 0 xs)"

definition cleanResponse :: "string \<Rightarrow> string" where
  "cleanResponse response =
     trim (removeFence [CHR 0x60, CHR 0x60, CHR 0x60] 0
             (removeFence ([CHR 0x60, CHR 0x60, CHR 0x60] @ ''json'') 0 response))"

text \<open>\<^verbatim>\<open>value || fallback\<close> for a field that may be missing or empty.\<close>

definition orDefault :: "string option \<Rightarrow> string \<Rightarrow> string" where
  "orDefault v d = (case v of None \<Rightarrow> d | Some s \<Rightarrow> if s = [] then d else s)"

definition parseFailure :: "string \<Rightarrow> CodeReviewResult" where
  "parseFailure text = \<lparr> summary = text, issues = [] \<rparr>"

text \<open>
  The issues of the single-chunk result carry no \<^verbatim>\<open>file\<close>; the field is empty until
  the orchestrator sets it.
\<close>

definition parseReviewResponse :: "Env \<Rightarrow> string \<Rightarrow> CodeReviewResult" where
  "parseReviewResponse env response =
     (case jsonParse env (cleanResponse response) of
        None \<Rightarrow> parseFailure ''Failed to parse review results''
      | Some parsed \<Rightarrow>
          (case rawIssues parsed of
             None \<Rightarrow> parseFailure ''Failed to parse review results''
           | Some raw \<Rightarrow>
               if orDefault (rawSummary parsed) [] = []
               then parseFailure ''Failed to parse review results''
               else \<lparr> summary = orDefault (rawSummary parsed) [],
                      issues = map (\<lambda>issue.
                        \<lparr> issueFile = [],
                          line = (case rawLine issue of None \<Rightarrow> 0 | Some n \<Rightarrow> n),
                          severity = orDefault (rawSeverity issue) ''low'',
                          issueType = orDefault (rawType issue) ''style'',
                          message = orDefault (rawMessage issue) ''No description'',
                          suggestion = orDefault (rawSuggestion issue) ''No suggestion'' \<rparr>) raw \<rparr>))"

definition parseBatchedReviewResponse :: "Env \<Rightarrow> string \<Rightarrow> CodeReviewResult" where
  "parseBatchedReviewResponse env response =
     (case jsonParse env (cleanResponse response) of
        None \<Rightarrow> parseFailure ''Failed to parse batched review results''
      | Some parsed \<Rightarrow>
          (case rawIssues parsed of
             None \<Rightarrow> parseFailure ''Failed to parse batched review results''
           | Some raw \<Rightarrow>
               if orDefault (rawSummary parsed) [] = []
               then parseFailure ''Failed to parse batched review results''
               else \<lparr> summary = orDefault (rawSummary parsed) [],
                      issues = map (\<lambda>issue.
                        \<lparr> issueFile = orDefault (rawFile issue) ''unknown'',
                          line = (case rawLine issue of None \<Rightarrow> 0 | Some n \<Rightarrow> n),
                          severity = orDefault (rawSeverity issue) ''low'',
                          issueType = orDefault (rawType issue) ''style'',
                          message = orDefault (rawMessage issue) ''No description'',
                          suggestion = orDefault (rawSuggestion issue) ''No suggestion'' \<rparr>) raw \<rparr>))"

definition reviewMultipleChunks :: "Env \<Rightarrow> ReviewChunk list \<Rightarrow> World \<Rightarrow> CodeReviewResult \<times> World" where
  "reviewMultipleChunks env cs w0 =
     (let w = w0\<lparr> llmCalls := llmCalls w0 @ [Batched cs] \<rparr> in
      if \<not> enabled env then (\<lparr> summary = [], issues = [] \<rparr>, w)
      else (case pRetry 3 (completion env (Batched cs)) w of
              (Some response, w') \<Rightarrow> (parseBatchedReviewResponse env response, w')
            | (None, w') \<Rightarrow> (\<lparr> summary = ''Error during batched review'', issues = [] \<rparr>, w')))"

definition reviewChangedLines :: "Env \<Rightarrow> ReviewChunk \<Rightarrow> World \<Rightarrow> CodeReviewResult \<times> World" where
  "reviewChangedLines env chunk w0 =
     (let w = w0\<lparr> llmCalls := llmCalls w0 @ [Single chunk] \<rparr> in
      if \<not> enabled env then (\<lparr> summary = [], issues = [] \<rparr>, w)
      else (case pRetry 3 (completion env (Single chunk)) w of
              (Some response, w') \<Rightarrow> (parseReviewResponse env response, w')
            | (None, w') \<Rightarrow> (\<lparr> summary = ''Error during review'', issues = [] \<rparr>, w')))"

section \<open>Review Orchestrator (review-processor.ts)\<close>

definition MAX_FILES :: int where
  "MAX_FILES = 50"

definition getMRDetails :: "Env \<Rightarrow> MrDetails option" where
  "getMRDetails env = mergeRequestShow env"

definition getMRDiffs :: "Env \<Rightarrow> GitLabDiff list option" where
  "getMRDiffs env =
     (case getMRDetails env of
        None \<Rightarrow> None
      | Some mrDetails \<Rightarrow>
          if baseSha mrDetails = [] \<or> headSha mrDetails = [] then Some []
          else repositoriesCompare env (baseSha mrDetails) (headSha mrDetails))"

text \<open>The body of the loop over the chunks of one diff: path override and file context.\<close>

definition prepareChunk :: "Env \<Rightarrow> MrDetails \<Rightarrow> string \<Rightarrow> string \<Rightarrow> ProcessedDiff \<Rightarrow> ReviewChunk" where
  "prepareChunk env mrDetails actualFilePath oldFilePath chunk =
     \<lparr> filename = actualFilePath, language = language chunk, hunks = hunks chunk,
       additions = additions chunk, deletions = deletions chunk,
       changedLines = changedLines chunk, oldPath = oldFilePath,
       chunkContext =
         (case changedLines chunk of
            [] \<Rightarrow> None
          | firstChanged # _ \<Rightarrow>
              Some (getFileContentWithContext (repositoryFile env) actualFilePath
                      (headSha mrDetails) firstChanged 10)) \<rparr>"

text \<open>Step 1: all chunks of the diffs to process, with context.\<close>

definition collectChunks :: "Env \<Rightarrow> MrDetails \<Rightarrow> GitLabDiff list \<Rightarrow> ReviewChunk list" where
  "collectChunks env mrDetails diffsToProcess =
     concat (map (\<lambda>diff.
       if diffText diff = [] then []
       else (let cs = extractChangedLinesWithContext (diffParser env) (diffText diff) 10;
                 actualFilePath = orElse (new_path diff) (old_path diff);
                 oldFilePath = orElse (old_path diff) (new_path diff)
             in if actualFilePath = [] then []
                else map (prepareChunk env mrDetails actualFilePath oldFilePath) cs))
       diffsToProcess)"

text \<open>Step 2: the batching decision.\<close>

definition totalChangedLines :: "ReviewChunk list \<Rightarrow> nat" where
  "totalChangedLines cs = fold (\<lambda>chunk sum. sum + (additions chunk + deletions chunk)) cs 0"

definition shouldBatch :: "ReviewChunk list \<Rightarrow> bool" where
  "shouldBatch cs = (totalChangedLines cs \<le> 500 \<and> length cs > 1)"

text \<open>The local variables of \<^verbatim>\<open>handleReview\<close> that the review loops update.\<close>

record Locals =
  allIssues :: "CodeIssue list"
  totalScore :: JsNumber
  filesProcessed :: nat

text \<open>
  \<^verbatim>\<open>severityImpact[issue.severity] || 2\<close>, as the number the subtraction sees. The
  severity is the string the LLM gave. For a key of the table it is the impact; for a
  string that names an inherited member of the table the lookup yields that member, and
  subtracting it gives \<open>NaN\<close>; for any other string it is the fallback 2.
\<close>

definition severityImpact :: "string \<Rightarrow> JsNumber" where
  "severityImpact sev =
     (case map_of [(''critical'', 15), (''high'', 10), (''medium'', 5), (''low'', 2)] sev of
        Some impact \<Rightarrow> Num impact
      | None \<Rightarrow> if inherited sev then NaN else Num 2)"

definition postsInline :: "string \<Rightarrow> bool" where
  "postsInline sev = (sev \<in> set [''critical'', ''high'', ''medium''])"

definition snippetFor :: "ReviewChunk \<Rightarrow> CodeIssue \<Rightarrow> string" where
  "snippetFor chunk issue =
     (case chunkContext chunk of
        None \<Rightarrow> []
      | Some ctx \<Rightarrow>
          (let relativeLineIndex = line issue - startLineNumber ctx in
           if 0 \<le> relativeLineIndex \<and> relativeLineIndex < int (length (lines ctx))
           then lines ctx ! nat relativeLineIndex
           else []))"

text \<open>
  \<^verbatim>\<open>postInlineComment\<close> logs and swallows a failure of the forge: the attempt is
  recorded, no error reaches the caller.
\<close>

definition postInlineComment :: "MrDetails \<Rightarrow> string \<Rightarrow> ReviewChunk \<Rightarrow> CodeIssue \<Rightarrow> World \<Rightarrow> World" where
  "postInlineComment mrDetails path chunk issue w =
     w\<lparr> inlinePosts := inlinePosts w @
         [\<lparr> postFilePath = path, postOldPath = orElse (oldPath chunk) path,
            postLine = line issue,
            postComment = \<lparr> commentIssue = issue, commentFile = path,
                            codeSnippet = snippetFor chunk issue,
                            commentLanguage = language chunk \<rparr>,
            postBaseSha = baseSha mrDetails, postHeadSha = headSha mrDetails,
            postStartSha = startSha mrDetails \<rparr>] \<rparr>"

text \<open>The batched path: the body of the loop over the issues of the one result.\<close>

definition batchedIssue ::
  "Env \<Rightarrow> MrDetails \<Rightarrow> ReviewChunk list \<Rightarrow> CodeIssue \<Rightarrow> Locals \<times> World \<Rightarrow> Locals \<times> World" where
  "batchedIssue env mrDetails cs issue lw =
     (case find (\<lambda>c. filename c = issueFile issue) cs of
        None \<Rightarrow> lw
      | Some chunkForIssue \<Rightarrow>
          (let ctx = \<lparr> filePath = issueFile issue, sha = headSha mrDetails,
                       fileContext = chunkContext chunkForIssue \<rparr>;
               verificationResult = verifyIssue (repositoryFile env) issue ctx;
               w1 = (snd lw)\<lparr> verifyCalls := verifyCalls (snd lw) @ [(issue, ctx)] \<rparr>
           in if isValid verificationResult
              then ((fst lw)\<lparr> allIssues := allIssues (fst lw) @ [issue],
                              totalScore := jsMinus (totalScore (fst lw)) (severityImpact (severity issue)) \<rparr>,
                    if postsInline (severity issue)
                    then postInlineComment mrDetails (issueFile issue) chunkForIssue issue w1
                    else w1)
              else (fst lw, w1)))"

definition reviewBatched ::
  "Env \<Rightarrow> MrDetails \<Rightarrow> ReviewChunk list \<Rightarrow> Locals \<times> World \<Rightarrow> Locals \<times> World" where
  "reviewBatched env mrDetails cs lw =
     (let batched = reviewMultipleChunks env cs (snd lw);
          batchedResult = fst batched
      in fold (batchedIssue env mrDetails cs) (issues batchedResult)
           ((fst lw)\<lparr> filesProcessed := length cs \<rparr>, snd batched))"

text \<open>The individual path: the body of the loop over the chunks.\<close>

definition retainIssue ::
  "MrDetails \<Rightarrow> ReviewChunk \<Rightarrow> CodeIssue \<Rightarrow> Locals \<times> World \<Rightarrow> Locals \<times> World" where
  "retainIssue mrDetails chunk issue lw =
     ((fst lw)\<lparr> allIssues := allIssues (fst lw) @ [issue\<lparr> issueFile := filename chunk \<rparr>] \<rparr>,
      if postsInline (severity issue)
      then postInlineComment mrDetails (filename chunk) chunk issue (snd lw)
      else snd lw)"

definition individualChunk ::
  "Env \<Rightarrow> MrDetails \<Rightarrow> ReviewChunk \<Rightarrow> Locals \<times> World \<Rightarrow> Locals \<times> World" where
  "individualChunk env mrDetails chunk lw =
     (let reviewed = reviewChangedLines env chunk (snd lw);
          result = fst reviewed;
          w1 = snd reviewed;
          ctx = \<lparr> filePath = filename chunk, sha = headSha mrDetails,
                  fileContext = chunkContext chunk \<rparr>;
          verifiedIssues =
            filter (\<lambda>issue. isValid (verifyIssue (repositoryFile env) issue ctx)) (issues result);
          w2 = w1\<lparr> verifyCalls := verifyCalls w1 @ map (\<lambda>issue. (issue, ctx)) (issues result) \<rparr>;
          posted = fold (retainIssue mrDetails chunk) verifiedIssues
                     ((fst lw)\<lparr> filesProcessed := filesProcessed (fst lw) + 1 \<rparr>, w2)
      in (fold (\<lambda>issue l. l\<lparr> totalScore := jsMinus (totalScore l) (severityImpact (severity issue)) \<rparr>)
            verifiedIssues (fst posted), snd posted))"

definition reviewIndividually ::
  "Env \<Rightarrow> MrDetails \<Rightarrow> ReviewChunk list \<Rightarrow> Locals \<times> World \<Rightarrow> Locals \<times> World" where
  "reviewIndividually env mrDetails cs lw = fold (individualChunk env mrDetails) cs lw"

text \<open>The decimal text of an integer, as a template literal renders it.\<close>

fun showNat :: "nat \<Rightarrow> string" where
  "showNat n =
     (if n < 10 then [''0123456789'' ! n]
      else showNat (n div 10) @ [''0123456789'' ! (n mod 10)])"

declare showNat.simps [simp del]

definition showInt :: "int \<Rightarrow> string" where
  "showInt i = (if i < 0 then CHR ''-'' # showNat (nat (- i)) else showNat (nat i))"

definition countSeverity :: "string \<Rightarrow> CodeIssue list \<Rightarrow> nat" where
  "countSeverity sev is = length (filter (\<lambda>i. severity i = sev) is)"

definition showNumber :: "JsNumber \<Rightarrow> string" where
  "showNumber a = (case a of Num x \<Rightarrow> showInt x | NaN \<Rightarrow> ''NaN'')"

text \<open>The summary as rendered when no step of the rendering throws.\<close>

definition summaryOf :: "CodeIssue list \<Rightarrow> JsNumber \<Rightarrow> int \<Rightarrow> nat \<Rightarrow> SummaryComment" where
  "summaryOf is score skippedFiles processed =
     \<lparr> scoreBand = (if jsGe score 80 then Good else if jsGe score 60 then Fair else Poor),
       scoreCell = ''**'' @ showNumber score @ ''/100**'',
       filesReviewed = processed,
       totalIssues = length is,
       criticalCount = countSeverity ''critical'' is,
       highCount = countSeverity ''high'' is,
       mediumCount = countSeverity ''medium'' is,
       lowCount = countSeverity ''low'' is,
       largeMrWarning =
         (if skippedFiles > 0 then Some (skippedFiles + int processed, MAX_FILES) else None),
       listedIssues = is,
       inlineNotice = (length (filter (\<lambda>i. postsInline (severity i)) is) > 0) \<rparr>"

text \<open>
  \<^verbatim>\<open>formatSummaryComment\<close> groups the issues by file in an object literal,
  \<^verbatim>\<open>if (!acc[issue.file]) acc[issue.file] = []; acc[issue.file].push(issue)\<close>. For a
  file named like an inherited member the lookup is truthy and has no \<^verbatim>\<open>push\<close>: the
  call throws a TypeError (\<open>None\<close>).
\<close>

definition formatSummaryComment ::
  "CodeIssue list \<Rightarrow> JsNumber \<Rightarrow> int \<Rightarrow> nat \<Rightarrow> SummaryComment option" where
  "formatSummaryComment is score skippedFiles processed =
     (if list_ex (\<lambda>i. inherited (issueFile i)) is then None
      else Some (summaryOf is score skippedFiles processed))"

datatype Outcome = Returned | Thrown

definition setStatus :: "ReviewStatus \<Rightarrow> World \<Rightarrow> World" where
  "setStatus s w = w\<lparr> review := (review w)\<lparr> status := s \<rparr> \<rparr>"

text \<open>Step 3: review the chunks, batched or one by one.\<close>

definition reviewChunks :: "Env \<Rightarrow> MrDetails \<Rightarrow> ReviewChunk list \<Rightarrow> World \<Rightarrow> Locals \<times> World" where
  "reviewChunks env mrDetails cs w =
     (if shouldBatch cs
      then reviewBatched env mrDetails cs (\<lparr> allIssues = [], totalScore = Num 100, filesProcessed = 0 \<rparr>, w)
      else reviewIndividually env mrDetails cs
             (\<lparr> allIssues = [], totalScore = Num 100, filesProcessed = 0 \<rparr>, w))"

text \<open>
  The end of the job, from the collected chunks on. A summary that cannot be rendered, a
  summary note the forge refuses (\<^verbatim>\<open>postMRComment\<close> throws), or a final update the
  database refuses is an error; the \<^verbatim>\<open>catch\<close> of \<^verbatim>\<open>handleReview\<close> then marks the
  review \<open>FAILED\<close> and throws again.
\<close>

definition reviewAndPersist ::
  "Env \<Rightarrow> MrDetails \<Rightarrow> int \<Rightarrow> ReviewChunk list \<Rightarrow> World \<Rightarrow> Outcome \<times> World" where
  "reviewAndPersist env mrDetails skippedFiles cs w =
     (let reviewed = reviewChunks env mrDetails cs w;
          l = fst reviewed;
          w1 = snd reviewed
      in case formatSummaryComment (allIssues l) (totalScore l) skippedFiles (filesProcessed l) of
           None \<Rightarrow> (Thrown, setStatus FAILED w1)
         | Some summaryComment \<Rightarrow>
             if \<not> noteCreate env then (Thrown, setStatus FAILED w1)
             else (let w2 = w1\<lparr> mrNotes := mrNotes w1 @ [summaryComment] \<rparr> in
                   if mathMax0 (totalScore l) = NaN \<and> \<not> acceptsNaN env
                   then (Thrown, setStatus FAILED w2)
                   else (Returned,
                         w2\<lparr> review := (review w2)\<lparr> reviewContent := IssuesContent (allIssues l),
                                                      qualityScore := mathMax0 (totalScore l),
                                                      issuesFound := length (allIssues l),
                                                      suggestionsCount := length (allIssues l),
                                                      status := COMPLETED \<rparr> \<rparr>)))"

text \<open>The database is taken to accept every other update of the review row.\<close>

definition handleReview :: "Env \<Rightarrow> World \<Rightarrow> Outcome \<times> World" where
  "handleReview env w0 =
     (let w = setStatus PROCESSING w0 in
      if \<not> enabled env then (Returned, setStatus SKIPPED w)
      else (case (getMRDiffs env, getMRDetails env) of
              (Some diffs, Some mrDetails) \<Rightarrow>
                if diffs = []
                then (Returned,
                      w\<lparr> review := (review w)\<lparr> status := COMPLETED,
                                                reviewContent := NoChangesToReview \<rparr> \<rparr>)
                else reviewAndPersist env mrDetails (max 0 (int (length diffs) - MAX_FILES))
                       (collectChunks env mrDetails (slice diffs 0 MAX_FILES)) w
            | _ \<Rightarrow> (Thrown, setStatus FAILED w)))"


text \<open>
  The retained issues, read off the verifier's log: the issues it judged valid, each under
  the file path it was verified for.
\<close>

definition retainedOf :: "Env \<Rightarrow> (CodeIssue \<times> VerificationContext) list \<Rightarrow> CodeIssue list" where
  "retainedOf env calls =
     map (\<lambda>call. (fst call)\<lparr> issueFile := filePath (snd call) \<rparr>)
       (filter (\<lambda>call. isValid (verifyIssue (repositoryFile env) (fst call) (snd call))) calls)"

text \<open>The sum of the impacts of a list of issues, as JavaScript adds them.\<close>

fun impactSum :: "CodeIssue list \<Rightarrow> JsNumber" where
  "impactSum [] = Num 0"
| "impactSum (i # is) = jsPlus (severityImpact (severity i)) (impactSum is)"

text \<open>The part of a log written by a run that started with the log \<open>before\<close>.\<close>

definition newEntries :: "'a list \<Rightarrow> 'a list \<Rightarrow> 'a list" where
  "newEntries before after = drop (length before) after"

section \<open>Vocabulary of the statements\<close>

text \<open>An attempt that p-retry answers with another one, while retries are left.\<close>

definition failedAttempt :: "LlmOutcome \<Rightarrow> bool" where
  "failedAttempt outcome =
     (case outcome of
        CallFails \<Rightarrow> True
      | Malformed \<Rightarrow> False
      | Reply None \<Rightarrow> True
      | Reply (Some c) \<Rightarrow> c = [])"

text \<open>
  The outcome of the \<open>k\<close>-th attempt (from 0) of a review call that starts in the world
  \<open>w\<close>, and whether the first \<open>k\<close> attempts all fail.
\<close>

definition outcomeAt :: "Env \<Rightarrow> LlmRequest \<Rightarrow> World \<Rightarrow> nat \<Rightarrow> LlmOutcome" where
  "outcomeAt env req w k = chatCompletion env req (length (llmAttempts w) + k)"

definition failuresBefore :: "Env \<Rightarrow> LlmRequest \<Rightarrow> World \<Rightarrow> nat \<Rightarrow> bool" where
  "failuresBefore env req w k = list_all (\<lambda>j. failedAttempt (outcomeAt env req w j)) [0..<k]"

text \<open>The world after a review call that asked the endpoint \<open>n\<close> times.\<close>

definition afterReview :: "LlmRequest \<Rightarrow> nat \<Rightarrow> World \<Rightarrow> World" where
  "afterReview req n w = w\<lparr> llmCalls := llmCalls w @ [req],
                             llmAttempts := llmAttempts w @ replicate n req \<rparr>"

text \<open>
  The impact map of the specification, critical 15, high 10, medium 5 and low 2, with the
  fallback of the code, 2, for a severity outside the table.
\<close>

definition impact :: "string \<Rightarrow> int" where
  "impact sev =
     (if sev = ''critical'' then 15 else if sev = ''high'' then 10
      else if sev = ''medium'' then 5 else 2)"

section \<open>Example jobs\<close>

definition chunkA :: ReviewChunk where
  "chunkA = \<lparr> filename = ''utils.ts'', language = Some ''typescript'', hunks = ''+x'',
     additions = 8, deletions = 2, changedLines = [12], oldPath = ''utils.ts'',
     chunkContext = None \<rparr>"

definition world0 :: World where
  "world0 = \<lparr> review = \<lparr> status = PENDING, reviewContent = EmptyContent, qualityScore = Num 0,
                          issuesFound = 0, suggestionsCount = 0 \<rparr>,
     llmAttempts = [], llmCalls = [], verifyCalls = [], inlinePosts = [], mrNotes = [] \<rparr>"

text \<open>A parser that reads every diff as one file with one added line at line 12.\<close>

definition oneLineParser :: "string \<Rightarrow> ParsedFile list option" where
  "oneLineParser d = Some [\<lparr> fileTo = ''b'', fileFrom = ''a'', binary = False, deleted = False,
     chunks = [[\<lparr> ctype = Add, content = ''x'', ln = 12 \<rparr>]] \<rparr>]"

definition twoDiffs :: "GitLabDiff list" where
  "twoDiffs = [\<lparr> new_path = ''utils.ts'', old_path = ''utils.ts'', diffText = ''d1'' \<rparr>,
               \<lparr> new_path = ''main.ts'', old_path = ''main.ts'', diffText = ''d2'' \<rparr>]"

definition rawIssue :: "string \<Rightarrow> int \<Rightarrow> string \<Rightarrow> string \<Rightarrow> string \<Rightarrow> RawIssue" where
  "rawIssue f l sev t m = \<lparr> rawFile = Some f, rawLine = Some l, rawSeverity = Some sev,
     rawType = Some t, rawMessage = Some m, rawSuggestion = Some ''fix it'' \<rparr>"

text \<open>
  A job on two files whose LLM answers at once with the given issues; file requests of
  the forge fail, so the chunks carry the empty context.
\<close>

definition jobEnv :: "GitLabDiff list \<Rightarrow> RawIssue list \<Rightarrow> Env" where
  "jobEnv ds raw = \<lparr> enabled = True,
     chatCompletion = (\<lambda>req n. Reply (Some ''ok'')),
     jsonParse = (\<lambda>s. Some \<lparr> rawSummary = Some ''ok'', rawIssues = Some raw \<rparr>),
     diffParser = oneLineParser,
     repositoryFile = failingForge,
     mergeRequestShow = Some \<lparr> baseSha = ''b'', headSha = ''h'', startSha = ''s'' \<rparr>,
     repositoriesCompare = (\<lambda>base head. Some ds),
     noteCreate = True,
     acceptsNaN = False \<rparr>"

text \<open>The happy path of a small merge request: one high and one low issue.\<close>

definition happyIssues :: "RawIssue list" where
  "happyIssues = [rawIssue ''utils.ts'' 12 ''high'' ''logic'' ''off by one'',
                  rawIssue ''main.ts'' 4 ''low'' ''style'' ''long line'']"

text \<open>Seven critical issues: their impacts sum to 105.\<close>

definition criticalIssues :: "RawIssue list" where
  "criticalIssues = replicate 7 (rawIssue ''utils.ts'' 12 ''critical'' ''security'' ''XSS'')"

text \<open>An LLM endpoint that is down, and one that answers with text that is not JSON.\<close>

definition downEnv :: Env where
  "downEnv = (jobEnv twoDiffs [])\<lparr> chatCompletion := (\<lambda>req n. CallFails) \<rparr>"

definition garbledEnv :: Env where
  "garbledEnv = (jobEnv twoDiffs [])\<lparr> chatCompletion := (\<lambda>req n. Reply (Some ''sorry'')),
                                      jsonParse := (\<lambda>s. None) \<rparr>"

text \<open>
  An endpoint that fails twice and then answers with text that is not JSON, and one that
  fails once and then delivers a response without choices.
\<close>

definition flakyEnv :: Env where
  "flakyEnv = (jobEnv twoDiffs [])\<lparr> chatCompletion :=
                  (\<lambda>req n. if n < 2 then CallFails else Reply (Some ''sorry'')),
                jsonParse := (\<lambda>s. None) \<rparr>"

definition brokenEnv :: Env where
  "brokenEnv = (jobEnv twoDiffs [])\<lparr> chatCompletion :=
                  (\<lambda>req n. if n < 1 then Reply None else Malformed) \<rparr>"

text \<open>
  What the review loops guarantee between two of their states: the verifier's log grows by
  \<open>new\<close>, the retained issues of \<open>new\<close> are appended to \<^verbatim>\<open>allIssues\<close>, their impacts
  are taken off \<^verbatim>\<open>totalScore\<close>, and neither the review row nor the notes change.
\<close>

definition accounted :: "Env \<Rightarrow> Locals \<times> World \<Rightarrow> Locals \<times> World \<Rightarrow> bool" where
  "accounted env lw lw' =
     (\<exists>new. verifyCalls (snd lw') = verifyCalls (snd lw) @ new
        \<and> allIssues (fst lw') = allIssues (fst lw) @ retainedOf env new
        \<and> totalScore (fst lw') = jsMinus (totalScore (fst lw)) (impactSum (retainedOf env new))
        \<and> review (snd lw') = review (snd lw)
        \<and> mrNotes (snd lw') = mrNotes (snd lw))"

text \<open>The issues a job retained, read off the verifier's log between its first and last state.\<close>

definition retainedIssues :: "Env \<Rightarrow> World \<Rightarrow> World \<Rightarrow> CodeIssue list" where
  "retainedIssues env w w' = retainedOf env (newEntries (verifyCalls w) (verifyCalls w'))"

text \<open>An issue the batched answer reports for a file that is not among the chunks.\<close>

definition strayIssue :: CodeIssue where
  "strayIssue = \<lparr> issueFile = ''other.ts'', line = 3, severity = ''critical'',
     issueType = ''security'', message = ''SQL injection'', suggestion = ''bind the parameter'' \<rparr>"

definition someDetails :: MrDetails where
  "someDetails = \<lparr> baseSha = ''b'', headSha = ''h'', startSha = ''s'' \<rparr>"

definition freshLocals :: Locals where
  "freshLocals = \<lparr> allIssues = [], totalScore = Num 100, filesProcessed = 0 \<rparr>"

definition oneDiff :: "GitLabDiff list" where
  "oneDiff = [\<lparr> new_path = ''utils.ts'', old_path = ''utils.ts'', diffText = ''d1'' \<rparr>]"

text \<open>The chunk the example jobs collect for a diff of the file \<open>path\<close>.\<close>

definition collected :: "string \<Rightarrow> ReviewChunk" where
  "collected path = \<lparr> filename = path, language = Some ''unknown'', hunks = ''+x'', additions = 1,
     deletions = 0, changedLines = [12], oldPath = path,
     chunkContext = Some (fetchFailure 12) \<rparr>"

text \<open>
  Between two states of the batched review: every verifier call, inline discussion and
  retained issue added is for a file in \<open>known\<close>.
\<close>

definition onlyKnownFiles :: "string set \<Rightarrow> Locals \<times> World \<Rightarrow> Locals \<times> World \<Rightarrow> bool" where
  "onlyKnownFiles known lw lw' =
     (\<exists>calls posts kept.
        verifyCalls (snd lw') = verifyCalls (snd lw) @ calls
        \<and> inlinePosts (snd lw') = inlinePosts (snd lw) @ posts
        \<and> allIssues (fst lw') = allIssues (fst lw) @ kept
        \<and> (\<forall>c\<in>set calls. issueFile (fst c) \<in> known)
        \<and> (\<forall>p\<in>set posts. postFilePath p \<in> known)
        \<and> (\<forall>i\<in>set kept. issueFile i \<in> known))"

section \<open>Properties of the forge client\<close>

lemma slice_within:
  "0 \<le> a \<Longrightarrow> a \<le> b \<Longrightarrow> b \<le> int (length xs) \<Longrightarrow> length (slice xs a b) = nat (b - a)"
  by (simp add: slice_def Let_def)

text \<open>
  C7 (as amended). When the file is fetched and its imports are extracted, the target
  line lies in the file (\<open>1 \<le> lineNumber \<le>\<close> number of lines) and the context width is
  not negative, the returned context satisfies
  \<open>startLineNumber \<le> targetLineNumber \<le> endLineNumber\<close> and
  \<open>lines.length = endLineNumber - startLineNumber + 1\<close>.
\<close>

theorem getFileContentWithContext_invariant:
  assumes "fetchFile path commit = Some body"
    and "extractImports (splitChar CHR 0x0A body) path \<noteq> None"
    and "1 \<le> lineNumber"
    and "lineNumber \<le> int (length (splitChar CHR 0x0A body))"
    and "0 \<le> contextLines"
  shows "contextInvariant (getFileContentWithContext fetchFile path commit lineNumber contextLines)"
proof -
  let ?ls = "splitChar CHR 0x0A body"
  let ?a = "max 0 (lineNumber - contextLines - 1)"
  let ?b = "min (int (length ?ls)) (lineNumber + contextLines)"
  obtain imps where imps: "extractImports ?ls path = Some imps"
    using assms(2) by blast
  have range: "0 \<le> ?a" "?a \<le> ?b" "?b \<le> int (length ?ls)" "?a + 1 \<le> lineNumber" "lineNumber \<le> ?b"
    using assms(3-5) by auto
  have len: "length (slice ?ls ?a ?b) = nat (?b - ?a)"
    using range(1-3) by (rule slice_within)
  show ?thesis
    using assms(1) imps range len
    by (simp add: getFileContentWithContext_def contextInvariant_def Let_def)
qed

theorem getFileContentWithContext_invariant_witness:
  "contextInvariant
     (getFileContentWithContext (constForge (''import a'' @ [CHR 0x0A] @ ''b'' @ [CHR 0x0A] @ ''c''))
        ''f.ts'' ''abc'' 2 1)"
proof -
  let ?content = "''import a'' @ [CHR 0x0A] @ ''b'' @ [CHR 0x0A] @ ''c''"
  have ls: "splitChar CHR 0x0A ?content = [''import a'', ''b'', ''c'']"
    by simp
  have imps: "extractImports [''import a'', ''b'', ''c''] ''f.ts'' \<noteq> None"
    by code_simp
  show ?thesis
    using getFileContentWithContext_invariant
      [of "constForge ?content" "''f.ts''" "''abc''" ?content 2 1] imps
    by (simp only: ls) (simp add: constForge_def)
qed

text \<open>
  C7 as stated fails on the fetch-failure return path: the context returned for target
  line 5 has \<open>startLineNumber = endLineNumber = 0\<close> and no lines. It also fails on the
  success path for a target line outside the file: line 9 of a two-line file gives
  \<open>endLineNumber = 2\<close>, and line 0 gives \<open>startLineNumber = 1\<close>.
\<close>

theorem getFileContentWithContext_failure_counterexample:
  "\<not> contextInvariant (getFileContentWithContext failingForge ''f.ts'' ''abc'' 5 10)
   \<and> \<not> contextInvariant
         (getFileContentWithContext (constForge (''a'' @ [CHR 0x0A] @ ''b'')) ''f.ts'' ''abc'' 9 1)
   \<and> \<not> contextInvariant
         (getFileContentWithContext (constForge (''a'' @ [CHR 0x0A] @ ''b'')) ''f.ts'' ''abc'' 0 50)"
  by code_simp

text \<open>
  C8. For every list of file lines \<open>L\<close> with at least 50 lines and every file path,
  extracting the imports of \<open>L @ L\<close> gives the same result as extracting those of \<open>L\<close>.
\<close>

theorem extractImports_prefix_repetition:
  "50 \<le> length L \<Longrightarrow> extractImports (L @ L) path = extractImports L path"
  by (simp add: extractImports_def)

theorem extractImports_prefix_repetition_witness:
  "50 \<le> length (replicate 50 ''import a'')
   \<and> extractImports (replicate 50 ''import a'' @ replicate 50 ''import a'') ''f.ts''
       = extractImports (replicate 50 ''import a'') ''f.ts''"
  using extractImports_prefix_repetition [of "replicate 50 ''import a''" "''f.ts''"]
  by simp

section \<open>Properties of the Diff Processor\<close>

lemma contextBefore_plus:
  "filter isPlusLine (result (contextBefore ls js st)) = filter isPlusLine (result st)"
  unfolding contextBefore_def
  by (induction js arbitrary: st) (auto simp: pushNormal_def isPlusLine_def)

lemma contextAfter_plus:
  "filter isPlusLine (result (contextAfter ls js st)) = filter isPlusLine (result st)"
  by (induction js arbitrary: st) (auto simp: pushNormal_def isPlusLine_def split: ChangeType.splits)

lemma contextBefore_changedLines:
  "changedLinesAcc (contextBefore ls js st) = changedLinesAcc st"
  unfolding contextBefore_def
  by (induction js arbitrary: st) (auto simp: pushNormal_def)

lemma contextAfter_changedLines:
  "changedLinesAcc (contextAfter ls js st) = changedLinesAcc st"
  by (induction js arbitrary: st) (auto simp: pushNormal_def split: ChangeType.splits)

lemma chunkStep_plus:
  "filter isPlusLine (result (chunkStep ls c i st))
     = filter isPlusLine (result st) @ (if isAdd (ls ! i) then [plusLine (ls ! i)] else [])"
proof (cases "ctype (ls ! i)")
  case Add
  then show ?thesis
    by (simp add: chunkStep_def Let_def contextAfter_plus contextBefore_plus isAdd_def
        plusLine_def isPlusLine_def)
next
  case Del
  then show ?thesis
    by (simp add: chunkStep_def isAdd_def isPlusLine_def)
next
  case Normal
  then show ?thesis
    by (simp add: chunkStep_def isAdd_def)
qed

lemma chunkStep_changedLines:
  "changedLinesAcc (chunkStep ls c i st)
     = changedLinesAcc st @ (if isAdd (ls ! i) then [ln (ls ! i)] else [])"
  by (cases "ctype (ls ! i)")
     (simp_all add: chunkStep_def Let_def contextAfter_changedLines contextBefore_changedLines
        isAdd_def)

lemma fold_chunkStep_plus:
  "filter isPlusLine (result (fold (chunkStep ls c) js st))
     = filter isPlusLine (result st) @ map (\<lambda>i. plusLine (ls ! i)) (filter (\<lambda>i. isAdd (ls ! i)) js)"
  by (induction js arbitrary: st) (simp_all add: chunkStep_plus)

lemma fold_chunkStep_changedLines:
  "changedLinesAcc (fold (chunkStep ls c) js st)
     = changedLinesAcc st @ map (\<lambda>i. ln (ls ! i)) (filter (\<lambda>i. isAdd (ls ! i)) js)"
  by (induction js arbitrary: st) (simp_all add: chunkStep_changedLines)

lemma map_filter_indices:
  "map (\<lambda>i. f (xs ! i)) (filter (\<lambda>i. P (xs ! i)) [0..<length xs]) = map f (filter P xs)"
proof -
  have "map f (filter P (map ((!) xs) [0..<length xs]))
          = map (\<lambda>i. f (xs ! i)) (filter (\<lambda>i. P (xs ! i)) [0..<length xs])"
    by (simp add: filter_map comp_def)
  then show ?thesis
    by (simp add: map_nth)
qed

lemma chunkLoop_plus:
  "filter isPlusLine (result (chunkLoop ls c)) = map plusLine (filter isAdd ls)"
  by (simp add: chunkLoop_def fold_chunkStep_plus chunkInit_def map_filter_indices)

lemma chunkLoop_changedLines:
  "changedLinesAcc (chunkLoop ls c) = map ln (filter isAdd ls)"
  by (simp add: chunkLoop_def fold_chunkStep_changedLines chunkInit_def map_filter_indices)

lemma slice_maxLines: "slice xs 0 maxLines = take 100 xs"
  by (simp add: slice_def maxLines_def Let_def min_def)

lemma filter_take_ex: "\<exists>k. filter P (take n xs) = take k (filter P xs)"
proof (induction xs arbitrary: n)
  case Nil
  show ?case by simp
next
  case (Cons a xs)
  show ?case
  proof (cases n)
    case 0
    then show ?thesis by (intro exI [of _ 0]) simp
  next
    case (Suc m)
    obtain k where k: "filter P (take m xs) = take k (filter P xs)"
      using Cons.IH by blast
    show ?thesis
    proof (cases "P a")
      case True
      with Suc k show ?thesis by (intro exI [of _ "Suc k"]) simp
    next
      case False
      with Suc k show ?thesis by (intro exI [of _ k]) simp
    qed
  qed
qed

lemma filter_take_prefix:
  "filter P (take n xs) = take (length (filter P (take n xs))) (filter P xs)"
proof -
  obtain k where k: "filter P (take n xs) = take k (filter P xs)"
    using filter_take_ex by blast
  have "take (length (take k (filter P xs))) (filter P xs) = take k (filter P xs)"
    by (simp add: min_def)
  then show ?thesis
    by (simp only: k)
qed

lemma chunkTextLines_plus_prefix:
  "filter isPlusLine (chunkTextLines ls c)
     = take (length (filter isPlusLine (chunkTextLines ls c))) (map plusLine (filter isAdd ls))"
  unfolding chunkTextLines_def slice_maxLines
  using filter_take_prefix [of isPlusLine 100 "result (chunkLoop ls c)"]
  by (simp add: chunkLoop_plus)

lemma chunkTextLines_length: "length (chunkTextLines ls c) \<le> 100"
  by (simp add: chunkTextLines_def slice_maxLines)

lemma context_counters:
  "hasChangesAcc (contextBefore ls js st) = hasChangesAcc st"
  "additionsAcc (contextBefore ls js st) = additionsAcc st"
  "deletionsAcc (contextBefore ls js st) = deletionsAcc st"
  "hasChangesAcc (contextAfter ls js st) = hasChangesAcc st"
  "additionsAcc (contextAfter ls js st) = additionsAcc st"
  "deletionsAcc (contextAfter ls js st) = deletionsAcc st"
proof -
  show "hasChangesAcc (contextBefore ls js st) = hasChangesAcc st"
    unfolding contextBefore_def by (induction js arbitrary: st) (auto simp: pushNormal_def)
  show "additionsAcc (contextBefore ls js st) = additionsAcc st"
    unfolding contextBefore_def by (induction js arbitrary: st) (auto simp: pushNormal_def)
  show "deletionsAcc (contextBefore ls js st) = deletionsAcc st"
    unfolding contextBefore_def by (induction js arbitrary: st) (auto simp: pushNormal_def)
  show "hasChangesAcc (contextAfter ls js st) = hasChangesAcc st"
    by (induction js arbitrary: st) (auto simp: pushNormal_def split: ChangeType.splits)
  show "additionsAcc (contextAfter ls js st) = additionsAcc st"
    by (induction js arbitrary: st) (auto simp: pushNormal_def split: ChangeType.splits)
  show "deletionsAcc (contextAfter ls js st) = deletionsAcc st"
    by (induction js arbitrary: st) (auto simp: pushNormal_def split: ChangeType.splits)
qed

lemma chunkStep_counters:
  "hasChangesAcc (chunkStep ls c i st) = (hasChangesAcc st \<or> ctype (ls ! i) \<noteq> Normal)"
  "additionsAcc (chunkStep ls c i st) = additionsAcc st + (if isAdd (ls ! i) then 1 else 0)"
  by (cases "ctype (ls ! i)"; simp add: chunkStep_def Let_def context_counters isAdd_def)+

lemma fold_chunkStep_counters:
  "hasChangesAcc (fold (chunkStep ls c) js st)
     = (hasChangesAcc st \<or> (\<exists>j\<in>set js. ctype (ls ! j) \<noteq> Normal))"
  "additionsAcc (fold (chunkStep ls c) js st)
     = additionsAcc st + length (filter (\<lambda>i. isAdd (ls ! i)) js)"
  by (induction js arbitrary: st) (auto simp: chunkStep_counters)

lemma chunkLoop_hasChanges:
  "hasChangesAcc (chunkLoop ls c) = (\<exists>x\<in>set ls. ctype x \<noteq> Normal)"
proof -
  have "(\<exists>j\<in>set [0..<length ls]. ctype (ls ! j) \<noteq> Normal) = (\<exists>x\<in>set ls. ctype x \<noteq> Normal)"
    by (metis atLeastLessThan_iff in_set_conv_nth set_upt zero_le)
  then show ?thesis
    by (simp add: chunkLoop_def fold_chunkStep_counters chunkInit_def)
qed

lemma chunkLoop_additions: "additionsAcc (chunkLoop ls c) = length (filter isAdd ls)"
proof -
  have "length (filter (\<lambda>i. isAdd (ls ! i)) [0..<length ls])
      = length (map (\<lambda>i. ls ! i) (filter (\<lambda>i. isAdd (ls ! i)) [0..<length ls]))"
    by simp
  also have "\<dots> = length (filter isAdd ls)"
    by (simp only: map_filter_indices [of "\<lambda>x. x" ls isAdd]) simp
  finally show ?thesis
    by (simp add: chunkLoop_def fold_chunkStep_counters chunkInit_def)
qed

lemma processChunk_lines:
  "chunkChangedLines (processChunk ls c) = map ln (filter isAdd ls)
   \<and> chunkAdditions (processChunk ls c) = length (filter isAdd ls)
   \<and> chunkContent (processChunk ls c) = join [CHR 0x0A] (chunkTextLines ls c)
   \<and> length (chunkTextLines ls c) \<le> 100
   \<and> filter isPlusLine (chunkTextLines ls c)
       = take (length (filter isPlusLine (chunkTextLines ls c))) (map plusLine (filter isAdd ls))
   \<and> (length (result (chunkLoop ls c)) \<le> 100
        \<longrightarrow> filter isPlusLine (chunkTextLines ls c) = map plusLine (filter isAdd ls))"
proof -
  have "length (result (chunkLoop ls c)) \<le> 100 \<Longrightarrow> chunkTextLines ls c = result (chunkLoop ls c)"
    by (simp add: chunkTextLines_def slice_maxLines)
  then show ?thesis
    using chunkTextLines_plus_prefix [of ls c] chunkTextLines_length [of ls c]
    by (simp add: processChunk_def Let_def chunkLoop_changedLines chunkLoop_plus chunkLoop_additions)
qed

text \<open>Every chunk the processor emits is the processed form of a chunk of the parsed diff.\<close>

lemma emitted_chunk_origin:
  assumes "p \<in> set (extractChangedLinesWithContext parse diff c)"
  shows "\<exists>files f ls. parse diff = Some files \<and> f \<in> set files \<and> ls \<in> set (chunks f)
           \<and> changedLines p = chunkChangedLines (processChunk ls c)
           \<and> additions p = chunkAdditions (processChunk ls c)
           \<and> hunks p = chunkContent (processChunk ls c)"
proof -
  obtain files where files: "parse diff = Some files"
    using assms by (cases "parse diff") (simp_all add: extractChangedLinesWithContext_def)
  then obtain f where f: "f \<in> set files" "p \<in> set (fileChunks c f)"
    using assms by (auto simp: extractChangedLinesWithContext_def)
  then obtain ls where "ls \<in> set (chunks f)"
      "changedLines p = chunkChangedLines (processChunk ls c)"
      "additions p = chunkAdditions (processChunk ls c)"
      "hunks p = chunkContent (processChunk ls c)"
    by (auto simp: fileChunks_def Let_def split: if_splits)
  with files f(1) show ?thesis
    by blast
qed

text \<open>
  C6 (as amended). For every chunk \<open>p\<close> the Diff Processor emits, built from the chunk \<open>ls\<close>
  of the parsed diff: \<open>changedLines\<close> is exactly the list of new-file line numbers of the
  added lines of \<open>ls\<close>; the chunk text is the join of at most 100 lines; its \<open>+\<close> lines
  are, in order, the first additions of \<open>ls\<close>, each with its original content, and they are
  all the additions whenever the untruncated text has at most 100 lines.
\<close>

theorem emitted_chunk_changed_lines:
  assumes "p \<in> set (extractChangedLinesWithContext parse diff c)"
  shows "\<exists>files f ls. parse diff = Some files \<and> f \<in> set files \<and> ls \<in> set (chunks f)
    \<and> changedLines p = map ln (filter isAdd ls)
    \<and> additions p = length (filter isAdd ls)
    \<and> hunks p = join [CHR 0x0A] (chunkTextLines ls c)
    \<and> length (chunkTextLines ls c) \<le> 100
    \<and> filter isPlusLine (chunkTextLines ls c)
        = take (length (filter isPlusLine (chunkTextLines ls c))) (map plusLine (filter isAdd ls))
    \<and> (length (result (chunkLoop ls c)) \<le> 100
         \<longrightarrow> filter isPlusLine (chunkTextLines ls c) = map plusLine (filter isAdd ls))"
proof -
  obtain files f ls where origin: "parse diff = Some files" "f \<in> set files" "ls \<in> set (chunks f)"
      "changedLines p = chunkChangedLines (processChunk ls c)"
      "additions p = chunkAdditions (processChunk ls c)"
      "hunks p = chunkContent (processChunk ls c)"
    using emitted_chunk_origin [OF assms] by blast
  show ?thesis
    using origin(1-3) processChunk_lines [of ls c]
    by (intro exI [of _ files] exI [of _ f] exI [of _ ls]) (simp add: origin(4-6))
qed

lemma small_diff_emitted:
  "extractChangedLinesWithContext smallDiffParser ''d'' 10 = [smallChunk]"
  by code_simp

theorem emitted_chunk_changed_lines_witness:
  "\<exists>files f ls. smallDiffParser ''d'' = Some files \<and> f \<in> set files \<and> ls \<in> set (chunks f)
    \<and> changedLines smallChunk = map ln (filter isAdd ls)
    \<and> additions smallChunk = length (filter isAdd ls)
    \<and> hunks smallChunk = join [CHR 0x0A] (chunkTextLines ls 10)
    \<and> length (chunkTextLines ls 10) \<le> 100
    \<and> filter isPlusLine (chunkTextLines ls 10)
        = take (length (filter isPlusLine (chunkTextLines ls 10))) (map plusLine (filter isAdd ls))
    \<and> (length (result (chunkLoop ls 10)) \<le> 100
         \<longrightarrow> filter isPlusLine (chunkTextLines ls 10) = map plusLine (filter isAdd ls))"
proof -
  have "smallChunk \<in> set (extractChangedLinesWithContext smallDiffParser ''d'' 10)"
    by (simp add: small_diff_emitted)
  then show ?thesis
    by (rule emitted_chunk_changed_lines)
qed

lemma longChunk_adds:
  "map plusLine (filter isAdd longChunk) = replicate 100 ''+a'' @ [''+b'']"
proof -
  have "map plusLine (filter isAdd (map (\<lambda>k. \<lparr> ctype = Add, content = ''a'', ln = int k + 1 \<rparr>) xs))
          = replicate (length xs) ''+a''" for xs :: "nat list"
    by (induction xs) (simp_all add: isAdd_def plusLine_def)
  from this [of "[0..<100]"] show ?thesis
    by (simp add: longChunk_def isAdd_def plusLine_def)
qed

lemma longChunk_text: "''+b'' \<notin> set (chunkTextLines longChunk 10)"
proof -
  let ?k = "length (filter isPlusLine (chunkTextLines longChunk 10))"
  have "?k \<le> length (chunkTextLines longChunk 10)"
    by (rule length_filter_le)
  then have k: "?k \<le> 100"
    using chunkTextLines_length [of longChunk 10] by linarith
  have "filter isPlusLine (chunkTextLines longChunk 10) = take ?k (replicate 100 ''+a'' @ [''+b''])"
    using chunkTextLines_plus_prefix [of longChunk 10] by (simp only: longChunk_adds)
  also have "\<dots> = replicate ?k ''+a''"
    using k by simp
  finally have fin: "filter isPlusLine (chunkTextLines longChunk 10) = replicate ?k ''+a''" .
  then obtain m where "filter isPlusLine (chunkTextLines longChunk 10) = replicate m ''+a''" ..
  then have notin: "''+b'' \<notin> set (filter isPlusLine (chunkTextLines longChunk 10))"
    by simp
  have "isPlusLine ''+b''"
    by (simp add: isPlusLine_def)
  with notin show ?thesis
    by (simp only: set_filter) blast
qed

lemma longChunk_emitted:
  "extractChangedLinesWithContext longDiffParser ''d'' 10
     = [\<lparr> filename = ''b.ts'', language = Some ''typescript'',
          hunks = join [CHR 0x0A] (chunkTextLines longChunk 10),
          additions = length (filter isAdd longChunk),
          deletions = deletionsAcc (chunkLoop longChunk 10),
          changedLines = map ln (filter isAdd longChunk) \<rparr>]"
proof -
  have changes: "hasChanges (processChunk longChunk 10)"
    by (simp add: processChunk_def Let_def chunkLoop_hasChanges longChunk_def)
  have lang: "detectLanguage ''b.ts'' = Some ''typescript''"
    by code_simp
  show ?thesis
    using processChunk_lines [of longChunk 10] changes
    by (simp add: extractChangedLinesWithContext_def longDiffParser_def fileChunks_def Let_def
        lang orElse_def processChunk_def)
qed

text \<open>
  C6 as stated fails on a diff whose chunk has 101 additions: the one chunk emitted lists
  line 101 in \<open>changedLines\<close>, but its text is the join of 100 lines none of which is the
  addition \<open>+b\<close> of that line, cut off by the cap.
\<close>

theorem emitted_chunk_truncation_counterexample:
  "length (extractChangedLinesWithContext longDiffParser ''d'' 10) = 1
   \<and> 101 \<in> set (changedLines (hd (extractChangedLinesWithContext longDiffParser ''d'' 10)))
   \<and> hunks (hd (extractChangedLinesWithContext longDiffParser ''d'' 10))
       = join [CHR 0x0A] (chunkTextLines longChunk 10)
   \<and> ''+b'' \<notin> set (chunkTextLines longChunk 10)"
proof -
  have "101 \<in> set (map ln (filter isAdd longChunk))"
    by (simp add: longChunk_def isAdd_def)
  then show ?thesis
    using longChunk_text by (simp add: longChunk_emitted)
qed

section \<open>Properties of the Issue Verifier\<close>

lemma verifyImportIssue_fetch_failure:
  assumes "extractImportName (message issue) = Some name"
    and "\<not> includesStr (toLowerCase (message issue)) ''duplicate''"
    and "\<not> list_ex (\<lambda>imp. matchesImport imp name) (contextImports ctx)"
    and "fetchFile (filePath ctx) (sha ctx) = None"
  shows "verifyImportIssue fetchFile issue ctx
           = \<lparr> isValid = True, confidence = Low, reason = CannotFetchFullFile \<rparr>"
  using assms by (simp add: verifyImportIssue_def getFileContent_def)

lemma verifyDefinitionIssue_fetch_failure:
  assumes "extractIdentifier (message issue) = Some name"
    and "\<not> list_ex (\<lambda>l. matchesDefinition l name) (contextLinesOf ctx)"
    and "fetchFile (filePath ctx) (sha ctx) = None"
  shows "verifyDefinitionIssue fetchFile issue ctx
           = \<lparr> isValid = True, confidence = High, reason = NotDefinedAnywhere name \<rparr>"
  using assms
  by (simp add: verifyDefinitionIssue_def getFileContentWithContext_def fetchFailure_def)

lemma undefinedIssue_routes:
  "\<not> isImportIssue (message undefinedIssue)" "isDefinitionIssue (message undefinedIssue)"
  "extractIdentifier (message undefinedIssue) = Some ''foo''"
  by (code_simp+)

text \<open>
  C4 (the definition path). The issue "foo is not defined" is verified with no file
  context while every forge request fails: the verifier answers valid with confidence
  \<open>High\<close> and the reason "not defined within the extended context or imports", not the
  low-confidence answer of its own \<^verbatim>\<open>catch\<close> branch.
\<close>

theorem verifyIssue_definition_fetch_failure:
  "verifyIssue failingForge undefinedIssue noContext
     = \<lparr> isValid = True, confidence = High, reason = NotDefinedAnywhere ''foo'' \<rparr>"
proof -
  have "verifyDefinitionIssue failingForge undefinedIssue noContext
          = \<lparr> isValid = True, confidence = High, reason = NotDefinedAnywhere ''foo'' \<rparr>"
    by (rule verifyDefinitionIssue_fetch_failure)
       (simp_all add: undefinedIssue_routes contextLinesOf_def noContext_def failingForge_def)
  then show ?thesis
    by (simp add: verifyIssue_def undefinedIssue_routes)
qed

lemma missingImportIssue_routes:
  "isImportIssue (message missingImportIssue)"
  "extractImportName (message missingImportIssue) = Some ''Foo''"
  "\<not> includesStr (toLowerCase (message missingImportIssue)) ''duplicate''"
  by (code_simp+)

lemma verifyIssue_import_fetch_failure:
  "verifyIssue failingForge missingImportIssue noContext
     = \<lparr> isValid = True, confidence = Low, reason = CannotFetchFullFile \<rparr>"
proof -
  have "verifyImportIssue failingForge missingImportIssue noContext
          = \<lparr> isValid = True, confidence = Low, reason = CannotFetchFullFile \<rparr>"
    by (rule verifyImportIssue_fetch_failure [where name = "''Foo''"])
       (simp_all add: missingImportIssue_routes contextImports_def noContext_def failingForge_def)
  then show ?thesis
    by (simp add: verifyIssue_def missingImportIssue_routes)
qed

text \<open>
  C5 (as amended). For every issue whose type is \<open>security\<close> or \<open>performance\<close> and whose
  message is neither import-related nor definition-related, \<open>verifyIssue\<close> returns
  \<open>isValid = true\<close> with confidence \<open>High\<close>.
\<close>

theorem verifyIssue_security_performance:
  assumes "issueType issue = ''security'' \<or> issueType issue = ''performance''"
    and "\<not> isImportIssue (message issue)"
    and "\<not> isDefinitionIssue (message issue)"
  shows "verifyIssue fetchFile issue ctx
           = \<lparr> isValid = True, confidence = High, reason = NotVerifiedSecurityPerformance \<rparr>"
  using assms by (auto simp: verifyIssue_def)

lemma injectionIssue_routes:
  "\<not> isImportIssue (message injectionIssue)" "\<not> isDefinitionIssue (message injectionIssue)"
  by (code_simp+)

theorem verifyIssue_security_performance_witness:
  "issueType injectionIssue = ''security''
   \<and> verifyIssue failingForge injectionIssue noContext
       = \<lparr> isValid = True, confidence = High, reason = NotVerifiedSecurityPerformance \<rparr>"
  using verifyIssue_security_performance [of injectionIssue failingForge noContext]
    injectionIssue_routes
  by (simp add: injectionIssue_def)

text \<open>
  C5 as stated fails for a security issue whose message mentions an import: it is routed
  to the import check first, which finds the name among the imports of the context and
  rejects the issue. Likewise a security issue whose message says "undefined" is routed to
  the definition check, which finds the identifier declared in the context.
\<close>

theorem verifyIssue_security_counterexample:
  "issueType securityImportIssue = ''security''
   \<and> verifyIssue failingForge securityImportIssue secretContext
       = \<lparr> isValid = False, confidence = High, reason = ImportAlreadyPresent ''Secret'' \<rparr>
   \<and> issueType securityUndefinedIssue = ''security''
   \<and> verifyIssue failingForge securityUndefinedIssue tokenContext
       = \<lparr> isValid = False, confidence = High, reason = DefinedInContext ''token'' \<rparr>"
  by code_simp

section \<open>Properties of the LLM service\<close>

lemma completion_world:
  "snd (completion env req w) = w\<lparr> llmAttempts := llmAttempts w @ [req] \<rparr>"
  by (simp add: completion_def Let_def split: LlmOutcome.splits option.splits)

lemma completion_failed:
  "failedAttempt (chatCompletion env req (length (llmAttempts w)))
     \<Longrightarrow> completion env req w = (Failed, w\<lparr> llmAttempts := llmAttempts w @ [req] \<rparr>)"
  by (simp add: completion_def failedAttempt_def Let_def split: LlmOutcome.splits option.splits)

lemma completion_reply:
  "chatCompletion env req (length (llmAttempts w)) = Reply (Some c) \<Longrightarrow> c \<noteq> []
     \<Longrightarrow> completion env req w = (Done c, w\<lparr> llmAttempts := llmAttempts w @ [req] \<rparr>)"
  by (simp add: completion_def Let_def)

lemma completion_malformed:
  "chatCompletion env req (length (llmAttempts w)) = Malformed
     \<Longrightarrow> completion env req w = (Aborted, w\<lparr> llmAttempts := llmAttempts w @ [req] \<rparr>)"
  by (simp add: completion_def Let_def)

text \<open>The retried call runs between once and \<open>retries + 1\<close> times and touches only the log of calls.\<close>

lemma pRetry_world:
  "\<exists>k. 1 \<le> k \<and> k \<le> n + 1
       \<and> snd (pRetry n (completion env req) w)
           = w\<lparr> llmAttempts := llmAttempts w @ replicate k req \<rparr>"
proof (induction n arbitrary: w)
  case 0
  obtain r w' where run: "completion env req w = (r, w')"
    by (cases "completion env req w")
  then have w': "w' = w\<lparr> llmAttempts := llmAttempts w @ [req] \<rparr>"
    using completion_world [of env req w] by simp
  show ?case
    using run w' by (intro exI [of _ 1]) (simp split: Attempt.splits)
next
  case (Suc n)
  obtain r w' where run: "completion env req w = (r, w')"
    by (cases "completion env req w")
  then have w': "w' = w\<lparr> llmAttempts := llmAttempts w @ [req] \<rparr>"
    using completion_world [of env req w] by simp
  show ?case
  proof (cases r)
    case (Done c)
    with run w' show ?thesis
      by (intro exI [of _ 1]) simp
  next
    case Aborted
    with run w' show ?thesis
      by (intro exI [of _ 1]) simp
  next
    case Failed
    obtain k where k: "1 \<le> k" "k \<le> n + 1"
      "snd (pRetry n (completion env req) w') = w'\<lparr> llmAttempts := llmAttempts w' @ replicate k req \<rparr>"
      using Suc.IH [of w'] by blast
    have "snd (pRetry (Suc n) (completion env req) w)
            = w\<lparr> llmAttempts := llmAttempts w @ replicate (Suc k) req \<rparr>"
      using run Failed k(3) by (simp add: w' replicate_app_Cons_same)
    with k(1,2) show ?thesis
      by (intro exI [of _ "Suc k"]) simp
  qed
qed

lemma failuresBefore_Suc:
  assumes "failuresBefore env req w (Suc k)"
  shows "failedAttempt (chatCompletion env req (length (llmAttempts w)))"
    and "failuresBefore env req (w\<lparr> llmAttempts := llmAttempts w @ [req] \<rparr>) k"
proof -
  have all: "failedAttempt (outcomeAt env req w j)" if "j < Suc k" for j
    using assms that by (auto simp: failuresBefore_def list_all_iff less_Suc_eq)
  show "failedAttempt (chatCompletion env req (length (llmAttempts w)))"
    using all [of 0] by (simp add: outcomeAt_def)
  have "failedAttempt (outcomeAt env req (w\<lparr> llmAttempts := llmAttempts w @ [req] \<rparr>) j)"
    if "j < k" for j
    using all [of "Suc j"] that by (simp add: outcomeAt_def)
  then show "failuresBefore env req (w\<lparr> llmAttempts := llmAttempts w @ [req] \<rparr>) k"
    unfolding failuresBefore_def list_all_iff by simp
qed

lemma outcomeAt_Suc:
  "outcomeAt env req (w\<lparr> llmAttempts := llmAttempts w @ [req] \<rparr>) k = outcomeAt env req w (Suc k)"
  by (simp add: outcomeAt_def)

lemma attempts_Suc:
  "(w\<lparr> llmAttempts := llmAttempts w @ [req] \<rparr>)
      \<lparr> llmAttempts := llmAttempts (w\<lparr> llmAttempts := llmAttempts w @ [req] \<rparr>) @ replicate k req \<rparr>
     = w\<lparr> llmAttempts := llmAttempts w @ replicate (Suc k) req \<rparr>"
  by (simp add: replicate_app_Cons_same)

text \<open>After \<open>k\<close> failures within the budget, a non-empty reply ends the retrying.\<close>

lemma pRetry_reply:
  assumes "k \<le> n" and "failuresBefore env req w k"
    and "outcomeAt env req w k = Reply (Some c)" and "c \<noteq> []"
  shows "pRetry n (completion env req) w
           = (Some c, w\<lparr> llmAttempts := llmAttempts w @ replicate (Suc k) req \<rparr>)"
  using assms
proof (induction k arbitrary: n w)
  case 0
  then have "completion env req w = (Done c, w\<lparr> llmAttempts := llmAttempts w @ [req] \<rparr>)"
    by (simp add: completion_reply outcomeAt_def)
  then show ?case
    by (cases n) simp_all
next
  case (Suc k)
  let ?w = "w\<lparr> llmAttempts := llmAttempts w @ [req] \<rparr>"
  obtain m where n: "n = Suc m" "k \<le> m"
    using Suc.prems(1) by (cases n) simp_all
  have first: "completion env req w = (Failed, ?w)"
    using failuresBefore_Suc(1) [OF Suc.prems(2)] by (rule completion_failed)
  have rest: "failuresBefore env req ?w k"
    using Suc.prems(2) by (rule failuresBefore_Suc(2))
  have "pRetry m (completion env req) ?w
          = (Some c, ?w\<lparr> llmAttempts := llmAttempts ?w @ replicate (Suc k) req \<rparr>)"
    by (rule Suc.IH [OF n(2) rest _ Suc.prems(4)]) (simp only: outcomeAt_Suc Suc.prems(3))
  then show ?case
    using first by (simp only: n(1) pRetry.simps prod.case Attempt.case attempts_Suc)
qed

text \<open>After \<open>k\<close> failures within the budget, a TypeError ends the retrying.\<close>

lemma pRetry_malformed:
  assumes "k \<le> n" and "failuresBefore env req w k"
    and "outcomeAt env req w k = Malformed"
  shows "pRetry n (completion env req) w
           = (None, w\<lparr> llmAttempts := llmAttempts w @ replicate (Suc k) req \<rparr>)"
  using assms
proof (induction k arbitrary: n w)
  case 0
  then have "completion env req w = (Aborted, w\<lparr> llmAttempts := llmAttempts w @ [req] \<rparr>)"
    by (simp add: completion_malformed outcomeAt_def)
  then show ?case
    by (cases n) simp_all
next
  case (Suc k)
  let ?w = "w\<lparr> llmAttempts := llmAttempts w @ [req] \<rparr>"
  obtain m where n: "n = Suc m" "k \<le> m"
    using Suc.prems(1) by (cases n) simp_all
  have first: "completion env req w = (Failed, ?w)"
    using failuresBefore_Suc(1) [OF Suc.prems(2)] by (rule completion_failed)
  have rest: "failuresBefore env req ?w k"
    using Suc.prems(2) by (rule failuresBefore_Suc(2))
  have "pRetry m (completion env req) ?w
          = (None, ?w\<lparr> llmAttempts := llmAttempts ?w @ replicate (Suc k) req \<rparr>)"
    by (rule Suc.IH [OF n(2) rest]) (simp only: outcomeAt_Suc Suc.prems(3))
  then show ?case
    using first by (simp only: n(1) pRetry.simps prod.case Attempt.case attempts_Suc)
qed

text \<open>When the first attempt and every retry fail, the call has run \<open>retries + 1\<close> times.\<close>

lemma pRetry_exhausted:
  assumes "failuresBefore env req w (Suc n)"
  shows "pRetry n (completion env req) w
           = (None, w\<lparr> llmAttempts := llmAttempts w @ replicate (Suc n) req \<rparr>)"
  using assms
proof (induction n arbitrary: w)
  case 0
  have "completion env req w = (Failed, w\<lparr> llmAttempts := llmAttempts w @ [req] \<rparr>)"
    using failuresBefore_Suc(1) [OF 0] by (rule completion_failed)
  then show ?case
    by simp
next
  case (Suc n)
  let ?w = "w\<lparr> llmAttempts := llmAttempts w @ [req] \<rparr>"
  have first: "completion env req w = (Failed, ?w)"
    using failuresBefore_Suc(1) [OF Suc.prems] by (rule completion_failed)
  have rest: "failuresBefore env req ?w (Suc n)"
    using Suc.prems by (rule failuresBefore_Suc(2))
  have "pRetry n (completion env req) ?w
          = (None, ?w\<lparr> llmAttempts := llmAttempts ?w @ replicate (Suc n) req \<rparr>)"
    using rest by (rule Suc.IH)
  then show ?case
    using first by (simp only: pRetry.simps prod.case Attempt.case attempts_Suc)
qed

lemma called_frame:
  "outcomeAt env req (w\<lparr> llmCalls := cs \<rparr>) k = outcomeAt env req w k"
  "failuresBefore env req (w\<lparr> llmCalls := cs \<rparr>) k = failuresBefore env req w k"
  by (simp_all add: outcomeAt_def failuresBefore_def)

lemma reviewChangedLines_world:
  "\<exists>k. k \<le> 4
       \<and> snd (reviewChangedLines env chunk w)
           = w\<lparr> llmCalls := llmCalls w @ [Single chunk],
               llmAttempts := llmAttempts w @ replicate k (Single chunk) \<rparr>"
proof (cases "enabled env")
  case False
  then show ?thesis
    by (intro exI [of _ 0]) (simp add: reviewChangedLines_def Let_def)
next
  case True
  let ?w = "w\<lparr> llmCalls := llmCalls w @ [Single chunk] \<rparr>"
  obtain k where k: "k \<le> 3 + 1"
      "snd (pRetry 3 (completion env (Single chunk)) ?w)
         = ?w\<lparr> llmAttempts := llmAttempts ?w @ replicate k (Single chunk) \<rparr>"
    using pRetry_world [of 3 env "Single chunk" ?w] by blast
  have "snd (reviewChangedLines env chunk w) = snd (pRetry 3 (completion env (Single chunk)) ?w)"
    using True by (simp add: reviewChangedLines_def Let_def split: prod.splits option.splits)
  with k show ?thesis
    by (intro exI [of _ k]) simp
qed

lemma reviewMultipleChunks_world:
  "\<exists>k. k \<le> 4
       \<and> snd (reviewMultipleChunks env cs w)
           = w\<lparr> llmCalls := llmCalls w @ [Batched cs],
               llmAttempts := llmAttempts w @ replicate k (Batched cs) \<rparr>"
proof (cases "enabled env")
  case False
  then show ?thesis
    by (intro exI [of _ 0]) (simp add: reviewMultipleChunks_def Let_def)
next
  case True
  let ?w = "w\<lparr> llmCalls := llmCalls w @ [Batched cs] \<rparr>"
  obtain k where k: "k \<le> 3 + 1"
      "snd (pRetry 3 (completion env (Batched cs)) ?w)
         = ?w\<lparr> llmAttempts := llmAttempts ?w @ replicate k (Batched cs) \<rparr>"
    using pRetry_world [of 3 env "Batched cs" ?w] by blast
  have "snd (reviewMultipleChunks env cs w) = snd (pRetry 3 (completion env (Batched cs)) ?w)"
    using True by (simp add: reviewMultipleChunks_def Let_def split: prod.splits option.splits)
  with k show ?thesis
    by (intro exI [of _ k]) simp
qed

text \<open>The three ways a retried call ends, for the two review operations.\<close>

lemma reviewChangedLines_reply:
  assumes "enabled env" and "k \<le> 3" and "failuresBefore env (Single chunk) w k"
    and "outcomeAt env (Single chunk) w k = Reply (Some c)" and "c \<noteq> []"
  shows "reviewChangedLines env chunk w
           = (parseReviewResponse env c, afterReview (Single chunk) (Suc k) w)"
proof -
  let ?w = "w\<lparr> llmCalls := llmCalls w @ [Single chunk] \<rparr>"
  have "pRetry 3 (completion env (Single chunk)) ?w
          = (Some c, ?w\<lparr> llmAttempts := llmAttempts ?w @ replicate (Suc k) (Single chunk) \<rparr>)"
    by (rule pRetry_reply [OF assms(2) _ _ assms(5)]) (simp_all only: called_frame assms(3,4))
  then show ?thesis
    using assms(1) by (simp add: reviewChangedLines_def Let_def afterReview_def)
qed

lemma reviewChangedLines_malformed:
  assumes "enabled env" and "k \<le> 3" and "failuresBefore env (Single chunk) w k"
    and "outcomeAt env (Single chunk) w k = Malformed"
  shows "reviewChangedLines env chunk w
           = (\<lparr> summary = ''Error during review'', issues = [] \<rparr>,
              afterReview (Single chunk) (Suc k) w)"
proof -
  let ?w = "w\<lparr> llmCalls := llmCalls w @ [Single chunk] \<rparr>"
  have "pRetry 3 (completion env (Single chunk)) ?w
          = (None, ?w\<lparr> llmAttempts := llmAttempts ?w @ replicate (Suc k) (Single chunk) \<rparr>)"
    by (rule pRetry_malformed [OF assms(2)]) (simp_all only: called_frame assms(3,4))
  then show ?thesis
    using assms(1) by (simp add: reviewChangedLines_def Let_def afterReview_def)
qed

lemma reviewChangedLines_exhausted:
  assumes "enabled env" and "failuresBefore env (Single chunk) w 4"
  shows "reviewChangedLines env chunk w
           = (\<lparr> summary = ''Error during review'', issues = [] \<rparr>,
              afterReview (Single chunk) 4 w)"
proof -
  let ?w = "w\<lparr> llmCalls := llmCalls w @ [Single chunk] \<rparr>"
  have "failuresBefore env (Single chunk) ?w (Suc 3)"
    using assms(2) by (simp only: called_frame) simp
  then have "pRetry 3 (completion env (Single chunk)) ?w
          = (None, ?w\<lparr> llmAttempts := llmAttempts ?w @ replicate (Suc 3) (Single chunk) \<rparr>)"
    by (rule pRetry_exhausted)
  then show ?thesis
    using assms(1) by (simp add: reviewChangedLines_def Let_def afterReview_def)
qed

lemma reviewMultipleChunks_reply:
  assumes "enabled env" and "k \<le> 3" and "failuresBefore env (Batched cs) w k"
    and "outcomeAt env (Batched cs) w k = Reply (Some c)" and "c \<noteq> []"
  shows "reviewMultipleChunks env cs w
           = (parseBatchedReviewResponse env c, afterReview (Batched cs) (Suc k) w)"
proof -
  let ?w = "w\<lparr> llmCalls := llmCalls w @ [Batched cs] \<rparr>"
  have "pRetry 3 (completion env (Batched cs)) ?w
          = (Some c, ?w\<lparr> llmAttempts := llmAttempts ?w @ replicate (Suc k) (Batched cs) \<rparr>)"
    by (rule pRetry_reply [OF assms(2) _ _ assms(5)]) (simp_all only: called_frame assms(3,4))
  then show ?thesis
    using assms(1) by (simp add: reviewMultipleChunks_def Let_def afterReview_def)
qed

lemma reviewMultipleChunks_malformed:
  assumes "enabled env" and "k \<le> 3" and "failuresBefore env (Batched cs) w k"
    and "outcomeAt env (Batched cs) w k = Malformed"
  shows "reviewMultipleChunks env cs w
           = (\<lparr> summary = ''Error during batched review'', issues = [] \<rparr>,
              afterReview (Batched cs) (Suc k) w)"
proof -
  let ?w = "w\<lparr> llmCalls := llmCalls w @ [Batched cs] \<rparr>"
  have "pRetry 3 (completion env (Batched cs)) ?w
          = (None, ?w\<lparr> llmAttempts := llmAttempts ?w @ replicate (Suc k) (Batched cs) \<rparr>)"
    by (rule pRetry_malformed [OF assms(2)]) (simp_all only: called_frame assms(3,4))
  then show ?thesis
    using assms(1) by (simp add: reviewMultipleChunks_def Let_def afterReview_def)
qed

lemma reviewMultipleChunks_exhausted:
  assumes "enabled env" and "failuresBefore env (Batched cs) w 4"
  shows "reviewMultipleChunks env cs w
           = (\<lparr> summary = ''Error during batched review'', issues = [] \<rparr>,
              afterReview (Batched cs) 4 w)"
proof -
  let ?w = "w\<lparr> llmCalls := llmCalls w @ [Batched cs] \<rparr>"
  have "failuresBefore env (Batched cs) ?w (Suc 3)"
    using assms(2) by (simp only: called_frame) simp
  then have "pRetry 3 (completion env (Batched cs)) ?w
          = (None, ?w\<lparr> llmAttempts := llmAttempts ?w @ replicate (Suc 3) (Batched cs) \<rparr>)"
    by (rule pRetry_exhausted)
  then show ?thesis
    using assms(1) by (simp add: reviewMultipleChunks_def Let_def afterReview_def)
qed

lemma parseReviewResponse_invalid:
  "jsonParse env (cleanResponse c) = None
     \<Longrightarrow> parseReviewResponse env c = parseFailure ''Failed to parse review results''"
  by (simp add: parseReviewResponse_def)

lemma parseBatchedReviewResponse_invalid:
  "jsonParse env (cleanResponse c) = None
     \<Longrightarrow> parseBatchedReviewResponse env c = parseFailure ''Failed to parse batched review results''"
  by (simp add: parseBatchedReviewResponse_def)

text \<open>
  C3 (as amended). Each call of \<open>reviewChangedLines\<close> and of \<open>reviewMultipleChunks\<close>
  asks the LLM at most 4 times: one attempt and up to 3 retries. An attempt that fails (an
  error of the client, or an empty response) is followed by another one as long as fewer
  than 4 were made: after \<open>k \<le> 3\<close> failures a non-empty response ends the call after
  exactly \<open>k + 1\<close> attempts, and 4 failures end it after exactly 4 attempts with the empty
  review "Error during (batched) review". A response without choices (a TypeError) is not
  retried: the call ends with that empty review at once. The response is parsed after
  the retried step, whichever attempt delivered it: a non-empty response that is not valid
  JSON causes no further attempt, and the call returns the empty review "Failed to parse
  (batched) review results".
\<close>

theorem llm_review_attempts:
  "length (llmAttempts (snd (reviewChangedLines env chunk w))) \<le> length (llmAttempts w) + 4
   \<and> length (llmAttempts (snd (reviewMultipleChunks env cs w))) \<le> length (llmAttempts w) + 4
   \<and> (enabled env \<and> k \<le> 3 \<and> failuresBefore env (Single chunk) w k
        \<and> outcomeAt env (Single chunk) w k = Reply (Some c) \<and> c \<noteq> []
      \<longrightarrow> reviewChangedLines env chunk w
            = (parseReviewResponse env c, afterReview (Single chunk) (Suc k) w)
          \<and> (jsonParse env (cleanResponse c) = None
              \<longrightarrow> reviewChangedLines env chunk w
                    = (parseFailure ''Failed to parse review results'',
                       afterReview (Single chunk) (Suc k) w)))
   \<and> (enabled env \<and> k \<le> 3 \<and> failuresBefore env (Single chunk) w k
        \<and> outcomeAt env (Single chunk) w k = Malformed
      \<longrightarrow> reviewChangedLines env chunk w
            = (\<lparr> summary = ''Error during review'', issues = [] \<rparr>,
               afterReview (Single chunk) (Suc k) w))
   \<and> (enabled env \<and> failuresBefore env (Single chunk) w 4
      \<longrightarrow> reviewChangedLines env chunk w
            = (\<lparr> summary = ''Error during review'', issues = [] \<rparr>,
               afterReview (Single chunk) 4 w))
   \<and> (enabled env \<and> k \<le> 3 \<and> failuresBefore env (Batched cs) w k
        \<and> outcomeAt env (Batched cs) w k = Reply (Some c) \<and> c \<noteq> []
      \<longrightarrow> reviewMultipleChunks env cs w
            = (parseBatchedReviewResponse env c, afterReview (Batched cs) (Suc k) w)
          \<and> (jsonParse env (cleanResponse c) = None
              \<longrightarrow> reviewMultipleChunks env cs w
                    = (parseFailure ''Failed to parse batched review results'',
                       afterReview (Batched cs) (Suc k) w)))
   \<and> (enabled env \<and> k \<le> 3 \<and> failuresBefore env (Batched cs) w k
        \<and> outcomeAt env (Batched cs) w k = Malformed
      \<longrightarrow> reviewMultipleChunks env cs w
            = (\<lparr> summary = ''Error during batched review'', issues = [] \<rparr>,
               afterReview (Batched cs) (Suc k) w))
   \<and> (enabled env \<and> failuresBefore env (Batched cs) w 4
      \<longrightarrow> reviewMultipleChunks env cs w
            = (\<lparr> summary = ''Error during batched review'', issues = [] \<rparr>,
               afterReview (Batched cs) 4 w))"
proof -
  obtain a where "a \<le> 4" "snd (reviewChangedLines env chunk w)
      = w\<lparr> llmCalls := llmCalls w @ [Single chunk],
            llmAttempts := llmAttempts w @ replicate a (Single chunk) \<rparr>"
    using reviewChangedLines_world by blast
  then have single: "length (llmAttempts (snd (reviewChangedLines env chunk w)))
      \<le> length (llmAttempts w) + 4"
    by simp
  obtain b where "b \<le> 4" "snd (reviewMultipleChunks env cs w)
      = w\<lparr> llmCalls := llmCalls w @ [Batched cs],
            llmAttempts := llmAttempts w @ replicate b (Batched cs) \<rparr>"
    using reviewMultipleChunks_world by blast
  then have batched: "length (llmAttempts (snd (reviewMultipleChunks env cs w)))
      \<le> length (llmAttempts w) + 4"
    by simp
  have sr: "enabled env \<and> k \<le> 3 \<and> failuresBefore env (Single chunk) w k
        \<and> outcomeAt env (Single chunk) w k = Reply (Some c) \<and> c \<noteq> []
      \<longrightarrow> reviewChangedLines env chunk w
            = (parseReviewResponse env c, afterReview (Single chunk) (Suc k) w)
          \<and> (jsonParse env (cleanResponse c) = None
              \<longrightarrow> reviewChangedLines env chunk w
                    = (parseFailure ''Failed to parse review results'',
                       afterReview (Single chunk) (Suc k) w))"
    using reviewChangedLines_reply [of env k chunk w c] parseReviewResponse_invalid [of env c]
    by simp
  have sm: "enabled env \<and> k \<le> 3 \<and> failuresBefore env (Single chunk) w k
        \<and> outcomeAt env (Single chunk) w k = Malformed
      \<longrightarrow> reviewChangedLines env chunk w
            = (\<lparr> summary = ''Error during review'', issues = [] \<rparr>,
               afterReview (Single chunk) (Suc k) w)"
    using reviewChangedLines_malformed [of env k chunk w] by simp
  have se: "enabled env \<and> failuresBefore env (Single chunk) w 4
      \<longrightarrow> reviewChangedLines env chunk w
            = (\<lparr> summary = ''Error during review'', issues = [] \<rparr>,
               afterReview (Single chunk) 4 w)"
    using reviewChangedLines_exhausted [of env chunk w] by simp
  have br: "enabled env \<and> k \<le> 3 \<and> failuresBefore env (Batched cs) w k
        \<and> outcomeAt env (Batched cs) w k = Reply (Some c) \<and> c \<noteq> []
      \<longrightarrow> reviewMultipleChunks env cs w
            = (parseBatchedReviewResponse env c, afterReview (Batched cs) (Suc k) w)
          \<and> (jsonParse env (cleanResponse c) = None
              \<longrightarrow> reviewMultipleChunks env cs w
                    = (parseFailure ''Failed to parse batched review results'',
                       afterReview (Batched cs) (Suc k) w))"
    using reviewMultipleChunks_reply [of env k cs w c] parseBatchedReviewResponse_invalid [of env c]
    by simp
  have bm: "enabled env \<and> k \<le> 3 \<and> failuresBefore env (Batched cs) w k
        \<and> outcomeAt env (Batched cs) w k = Malformed
      \<longrightarrow> reviewMultipleChunks env cs w
            = (\<lparr> summary = ''Error during batched review'', issues = [] \<rparr>,
               afterReview (Batched cs) (Suc k) w)"
    using reviewMultipleChunks_malformed [of env k cs w] by simp
  have be: "enabled env \<and> failuresBefore env (Batched cs) w 4
      \<longrightarrow> reviewMultipleChunks env cs w
            = (\<lparr> summary = ''Error during batched review'', issues = [] \<rparr>,
               afterReview (Batched cs) 4 w)"
    using reviewMultipleChunks_exhausted [of env cs w] by simp
  show ?thesis
    by (rule conjI [OF single conjI [OF batched conjI [OF sr conjI [OF sm conjI [OF se
          conjI [OF br conjI [OF bm be]]]]]]])
qed

lemma flaky_setup:
  "enabled flakyEnv" "failuresBefore flakyEnv req world0 2"
  "outcomeAt flakyEnv req world0 2 = Reply (Some ''sorry'')"
  "jsonParse flakyEnv s = None"
  by (simp_all add: flakyEnv_def jobEnv_def failuresBefore_def outcomeAt_def world0_def
      failedAttempt_def list_all_iff)

lemma broken_setup:
  "enabled brokenEnv" "failuresBefore brokenEnv req world0 (Suc 0)"
  "outcomeAt brokenEnv req world0 (Suc 0) = Malformed"
  by (simp_all add: brokenEnv_def jobEnv_def failuresBefore_def outcomeAt_def world0_def
      failedAttempt_def list_all_iff)

lemma down_setup:
  "enabled downEnv" "failuresBefore downEnv req world0 4"
  by (simp_all add: downEnv_def jobEnv_def failuresBefore_def outcomeAt_def world0_def
      failedAttempt_def list_all_iff)

theorem llm_review_attempts_witness:
  "reviewChangedLines flakyEnv chunkA world0
     = (parseFailure ''Failed to parse review results'', afterReview (Single chunkA) 3 world0)
   \<and> reviewMultipleChunks flakyEnv [chunkA, chunkA] world0
     = (parseFailure ''Failed to parse batched review results'',
        afterReview (Batched [chunkA, chunkA]) 3 world0)
   \<and> reviewChangedLines brokenEnv chunkA world0
     = (\<lparr> summary = ''Error during review'', issues = [] \<rparr>, afterReview (Single chunkA) 2 world0)
   \<and> reviewMultipleChunks brokenEnv [chunkA, chunkA] world0
     = (\<lparr> summary = ''Error during batched review'', issues = [] \<rparr>,
        afterReview (Batched [chunkA, chunkA]) 2 world0)
   \<and> reviewChangedLines downEnv chunkA world0
     = (\<lparr> summary = ''Error during review'', issues = [] \<rparr>, afterReview (Single chunkA) 4 world0)
   \<and> reviewMultipleChunks downEnv [chunkA, chunkA] world0
     = (\<lparr> summary = ''Error during batched review'', issues = [] \<rparr>,
        afterReview (Batched [chunkA, chunkA]) 4 world0)"
proof -
  have flaky: "reviewChangedLines flakyEnv chunkA world0
       = (parseFailure ''Failed to parse review results'', afterReview (Single chunkA) 3 world0)
     \<and> reviewMultipleChunks flakyEnv [chunkA, chunkA] world0
       = (parseFailure ''Failed to parse batched review results'',
          afterReview (Batched [chunkA, chunkA]) 3 world0)"
    using llm_review_attempts [of flakyEnv chunkA world0 "[chunkA, chunkA]" 2 "''sorry''"]
    by (simp add: flaky_setup parseReviewResponse_invalid parseBatchedReviewResponse_invalid)
  have broken: "reviewChangedLines brokenEnv chunkA world0
       = (\<lparr> summary = ''Error during review'', issues = [] \<rparr>, afterReview (Single chunkA) 2 world0)
     \<and> reviewMultipleChunks brokenEnv [chunkA, chunkA] world0
       = (\<lparr> summary = ''Error during batched review'', issues = [] \<rparr>,
          afterReview (Batched [chunkA, chunkA]) 2 world0)"
    using llm_review_attempts [of brokenEnv chunkA world0 "[chunkA, chunkA]" 1 "''sorry''"]
    by (simp add: broken_setup numeral_2_eq_2)
  have down: "reviewChangedLines downEnv chunkA world0
       = (\<lparr> summary = ''Error during review'', issues = [] \<rparr>, afterReview (Single chunkA) 4 world0)
     \<and> reviewMultipleChunks downEnv [chunkA, chunkA] world0
       = (\<lparr> summary = ''Error during batched review'', issues = [] \<rparr>,
          afterReview (Batched [chunkA, chunkA]) 4 world0)"
    using llm_review_attempts [of downEnv chunkA world0 "[chunkA, chunkA]" 0 "''sorry''"]
    by (simp add: down_setup)
  from flaky broken down show ?thesis
    by simp
qed

text \<open>
  C3 as stated fails twice: with the endpoint down a single review call makes 4 attempts,
  and an answer that is not JSON is parsed once, with no further attempt.
\<close>

theorem llm_review_retry_counterexample:
  "length (llmAttempts (snd (reviewChangedLines downEnv chunkA world0))) = 4
   \<and> reviewChangedLines garbledEnv chunkA world0
       = (parseFailure ''Failed to parse review results'',
          world0\<lparr> llmCalls := [Single chunkA], llmAttempts := [Single chunkA] \<rparr>)"
  by (simp add: reviewChangedLines_def completion_def parseReviewResponse_def downEnv_def
      garbledEnv_def jobEnv_def world0_def numeral_3_eq_3 Let_def)

section \<open>Properties of the Review Orchestrator\<close>

lemma retainedOf_append: "retainedOf env (a @ b) = retainedOf env a @ retainedOf env b"
  by (simp add: retainedOf_def)

lemma jsPlus_zero: "jsPlus (Num 0) a = a" "jsPlus a (Num 0) = a"
  by (cases a; simp add: jsPlus_def)+

lemma jsPlus_assoc: "jsPlus (jsPlus a b) c = jsPlus a (jsPlus b c)"
  by (cases a; cases b; cases c) (simp_all add: jsPlus_def)

lemma jsMinus_zero: "jsMinus a (Num 0) = a"
  by (cases a) (simp_all add: jsMinus_def)

lemma jsMinus_plus: "jsMinus (jsMinus a b) c = jsMinus a (jsPlus b c)"
  by (cases a; cases b; cases c) (simp_all add: jsMinus_def jsPlus_def)

lemma impactSum_append: "impactSum (a @ b) = jsPlus (impactSum a) (impactSum b)"
  by (induction a) (simp_all add: jsPlus_zero jsPlus_assoc)

lemma accounted_refl: "accounted env lw lw"
  unfolding accounted_def
  by (intro exI [of _ "[]"]) (simp add: retainedOf_def jsMinus_zero)

lemma accounted_trans:
  assumes "accounted env a b" and "accounted env b c"
  shows "accounted env a c"
proof -
  obtain n1 where n1: "verifyCalls (snd b) = verifyCalls (snd a) @ n1"
      "allIssues (fst b) = allIssues (fst a) @ retainedOf env n1"
      "totalScore (fst b) = jsMinus (totalScore (fst a)) (impactSum (retainedOf env n1))"
      "review (snd b) = review (snd a)" "mrNotes (snd b) = mrNotes (snd a)"
    using assms(1) unfolding accounted_def by blast
  obtain n2 where n2: "verifyCalls (snd c) = verifyCalls (snd b) @ n2"
      "allIssues (fst c) = allIssues (fst b) @ retainedOf env n2"
      "totalScore (fst c) = jsMinus (totalScore (fst b)) (impactSum (retainedOf env n2))"
      "review (snd c) = review (snd b)" "mrNotes (snd c) = mrNotes (snd b)"
    using assms(2) unfolding accounted_def by blast
  show ?thesis
    unfolding accounted_def
    using n1 n2
    by (intro exI [of _ "n1 @ n2"]) (simp add: retainedOf_append impactSum_append jsMinus_plus)
qed

lemma accounted_fold:
  assumes "\<And>x lw. accounted env lw (f x lw)"
  shows "accounted env lw (fold f xs lw)"
proof (induction xs arbitrary: lw)
  case Nil
  show ?case by (simp add: accounted_refl)
next
  case (Cons x xs)
  have "accounted env lw (f x lw)" by (rule assms)
  moreover have "accounted env (f x lw) (fold f xs (f x lw))" by (rule Cons.IH)
  ultimately show ?case
    using accounted_trans by simp
qed

lemma postInlineComment_frame:
  "verifyCalls (postInlineComment d p chunk issue w) = verifyCalls w"
  "review (postInlineComment d p chunk issue w) = review w"
  "mrNotes (postInlineComment d p chunk issue w) = mrNotes w"
  "llmCalls (postInlineComment d p chunk issue w) = llmCalls w"
  by (simp_all add: postInlineComment_def)

lemma retainedOf_single:
  "retainedOf env [(issue, ctx)]
     = (if isValid (verifyIssue (repositoryFile env) issue ctx)
        then [issue\<lparr> issueFile := filePath ctx \<rparr>] else [])"
  by (simp add: retainedOf_def)

lemma batchedIssue_accounted: "accounted env lw (batchedIssue env d cs issue lw)"
proof (cases "find (\<lambda>c. filename c = issueFile issue) cs")
  case None
  then show ?thesis
    by (simp add: batchedIssue_def accounted_refl)
next
  case (Some chunkForIssue)
  let ?ctx = "\<lparr> filePath = issueFile issue, sha = headSha d,
                 fileContext = chunkContext chunkForIssue \<rparr>"
  show ?thesis
    unfolding accounted_def
    using Some
    by (intro exI [of _ "[(issue, ?ctx)]"])
       (simp add: batchedIssue_def Let_def retainedOf_single jsPlus_zero jsMinus_zero
          postInlineComment_frame)
qed



lemma reviewBatched_accounted: "accounted env lw (reviewBatched env d cs lw)"
proof -
  obtain r w1 where call: "reviewMultipleChunks env cs (snd lw) = (r, w1)"
    by (cases "reviewMultipleChunks env cs (snd lw)")
  obtain k where "w1 = (snd lw)\<lparr> llmCalls := llmCalls (snd lw) @ [Batched cs],
      llmAttempts := llmAttempts (snd lw) @ replicate k (Batched cs) \<rparr>"
    using reviewMultipleChunks_world [of env cs "snd lw"] call by auto
  then have "accounted env lw ((fst lw)\<lparr> filesProcessed := length cs \<rparr>, w1)"
    unfolding accounted_def
    by (intro exI [of _ "[]"]) (simp add: retainedOf_def jsMinus_zero)
  moreover have "accounted env ((fst lw)\<lparr> filesProcessed := length cs \<rparr>, w1)
      (fold (batchedIssue env d cs) (issues r) ((fst lw)\<lparr> filesProcessed := length cs \<rparr>, w1))"
    by (rule accounted_fold) (rule batchedIssue_accounted)
  ultimately show ?thesis
    using call accounted_trans by (simp add: reviewBatched_def Let_def)
qed


lemma retainIssue_fold:
  "allIssues (fst (fold (retainIssue d chunk) vs lw))
     = allIssues (fst lw) @ map (\<lambda>i. i\<lparr> issueFile := filename chunk \<rparr>) vs
   \<and> totalScore (fst (fold (retainIssue d chunk) vs lw)) = totalScore (fst lw)
   \<and> verifyCalls (snd (fold (retainIssue d chunk) vs lw)) = verifyCalls (snd lw)
   \<and> review (snd (fold (retainIssue d chunk) vs lw)) = review (snd lw)
   \<and> mrNotes (snd (fold (retainIssue d chunk) vs lw)) = mrNotes (snd lw)
   \<and> llmCalls (snd (fold (retainIssue d chunk) vs lw)) = llmCalls (snd lw)"
  by (induction vs arbitrary: lw) (simp_all add: retainIssue_def postInlineComment_frame)

lemma score_fold:
  "totalScore (fold (\<lambda>issue l. l\<lparr> totalScore := jsMinus (totalScore l) (severityImpact (severity issue)) \<rparr>) vs l)
     = jsMinus (totalScore l) (impactSum vs)
   \<and> allIssues (fold (\<lambda>issue l. l\<lparr> totalScore := jsMinus (totalScore l) (severityImpact (severity issue)) \<rparr>) vs l)
     = allIssues l"
  by (induction vs arbitrary: l) (simp_all add: jsMinus_zero jsMinus_plus)

lemma retainedOf_chunk:
  "retainedOf env (map (\<lambda>issue. (issue, ctx)) is)
     = map (\<lambda>i. i\<lparr> issueFile := filePath ctx \<rparr>)
         (filter (\<lambda>issue. isValid (verifyIssue (repositoryFile env) issue ctx)) is)"
  by (simp add: retainedOf_def filter_map comp_def)

lemma impactSum_renamed: "impactSum (map (\<lambda>i. i\<lparr> issueFile := f \<rparr>) vs) = impactSum vs"
  by (induction vs) simp_all

lemma individualChunk_accounted: "accounted env lw (individualChunk env d chunk lw)"
proof -
  obtain r w1 where call: "reviewChangedLines env chunk (snd lw) = (r, w1)"
    by (cases "reviewChangedLines env chunk (snd lw)")
  obtain k where w1: "w1 = (snd lw)\<lparr> llmCalls := llmCalls (snd lw) @ [Single chunk],
      llmAttempts := llmAttempts (snd lw) @ replicate k (Single chunk) \<rparr>"
    using reviewChangedLines_world [of env chunk "snd lw"] call by auto
  let ?ctx = "\<lparr> filePath = filename chunk, sha = headSha d, fileContext = chunkContext chunk \<rparr>"
  let ?vs = "filter (\<lambda>issue. isValid (verifyIssue (repositoryFile env) issue ?ctx)) (issues r)"
  let ?w2 = "w1\<lparr> verifyCalls := verifyCalls w1 @ map (\<lambda>issue. (issue, ?ctx)) (issues r) \<rparr>"
  let ?start = "((fst lw)\<lparr> filesProcessed := filesProcessed (fst lw) + 1 \<rparr>, ?w2)"
  obtain l3 w3 where loop: "fold (retainIssue d chunk) ?vs ?start = (l3, w3)"
    by (cases "fold (retainIssue d chunk) ?vs ?start")
  have kept: "allIssues l3 = allIssues (fst lw) @ map (\<lambda>i. i\<lparr> issueFile := filename chunk \<rparr>) ?vs"
      "totalScore l3 = totalScore (fst lw)"
      "verifyCalls w3 = verifyCalls (snd lw) @ map (\<lambda>issue. (issue, ?ctx)) (issues r)"
      "review w3 = review (snd lw)" "mrNotes w3 = mrNotes (snd lw)"
    using retainIssue_fold [of d chunk ?vs ?start] loop by (simp_all add: w1)
  let ?score = "fold (\<lambda>issue l. l\<lparr> totalScore := jsMinus (totalScore l) (severityImpact (severity issue)) \<rparr>) ?vs l3"
  have result: "individualChunk env d chunk lw = (?score, w3)"
    using call loop by (simp add: individualChunk_def Let_def)
  have retained: "retainedOf env (map (\<lambda>issue. (issue, ?ctx)) (issues r))
      = map (\<lambda>i. i\<lparr> issueFile := filename chunk \<rparr>) ?vs"
    by (simp add: retainedOf_chunk)
  show ?thesis
    unfolding accounted_def result
    using kept score_fold [of ?vs l3]
    by (intro exI [of _ "map (\<lambda>issue. (issue, ?ctx)) (issues r)"])
       (simp add: retained impactSum_renamed)
qed


lemma reviewIndividually_accounted: "accounted env lw (reviewIndividually env d cs lw)"
  unfolding reviewIndividually_def
  by (rule accounted_fold) (rule individualChunk_accounted)


lemma reviewChunks_accounted:
  "accounted env (\<lparr> allIssues = [], totalScore = Num 100, filesProcessed = 0 \<rparr>, w)
     (reviewChunks env d cs w)"
  by (simp add: reviewChunks_def reviewBatched_accounted reviewIndividually_accounted)


lemma reviewAndPersist_returned:
  assumes "fst (reviewAndPersist env d sk cs w) = Returned"
  shows "\<exists>new n.
           verifyCalls (snd (reviewAndPersist env d sk cs w)) = verifyCalls w @ new
           \<and> review (snd (reviewAndPersist env d sk cs w))
               = (review w)\<lparr> reviewContent := IssuesContent (retainedOf env new),
                              qualityScore := mathMax0 (jsMinus (Num 100) (impactSum (retainedOf env new))),
                              issuesFound := length (retainedOf env new),
                              suggestionsCount := length (retainedOf env new),
                              status := COMPLETED \<rparr>
           \<and> mrNotes (snd (reviewAndPersist env d sk cs w))
               = mrNotes w @ [summaryOf (retainedOf env new)
                                (jsMinus (Num 100) (impactSum (retainedOf env new))) sk n]"
proof -
  obtain l w1 where loops: "reviewChunks env d cs w = (l, w1)"
    by (cases "reviewChunks env d cs w")
  obtain new where new: "verifyCalls w1 = verifyCalls w @ new"
      "allIssues l = retainedOf env new"
      "totalScore l = jsMinus (Num 100) (impactSum (retainedOf env new))"
      "review w1 = review w" "mrNotes w1 = mrNotes w"
    using reviewChunks_accounted [of env w d cs] loops
    unfolding accounted_def by auto
  have rendered: "formatSummaryComment (allIssues l) (totalScore l) sk (filesProcessed l)
      = Some (summaryOf (allIssues l) (totalScore l) sk (filesProcessed l))"
    using assms loops
    by (simp add: reviewAndPersist_def Let_def formatSummaryComment_def split: if_splits)
  have posted: "noteCreate env"
    using assms loops rendered
    by (simp add: reviewAndPersist_def Let_def split: if_splits)
  have stored: "\<not> (mathMax0 (totalScore l) = NaN \<and> \<not> acceptsNaN env)"
    using assms loops rendered posted
    by (simp add: reviewAndPersist_def Let_def split: if_splits)
  have "reviewAndPersist env d sk cs w
      = (Returned,
         w1\<lparr> mrNotes := mrNotes w1 @ [summaryOf (allIssues l) (totalScore l) sk (filesProcessed l)],
             review := (review w1)\<lparr> reviewContent := IssuesContent (allIssues l),
                                      qualityScore := mathMax0 (totalScore l),
                                      issuesFound := length (allIssues l),
                                      suggestionsCount := length (allIssues l),
                                      status := COMPLETED \<rparr> \<rparr>)"
    using loops rendered posted stored
    by (simp add: reviewAndPersist_def Let_def)
  then show ?thesis
    using new
    by (intro exI [of _ new] exI [of _ "filesProcessed l"]) simp
qed


lemma getMRDiffs_details: "getMRDiffs env = Some diffs \<Longrightarrow> \<exists>d. getMRDetails env = Some d"
  by (auto simp: getMRDiffs_def split: option.splits)

lemma handleReview_review_stage:
  assumes "enabled env" and "getMRDiffs env = Some diffs" and "diffs \<noteq> []"
    and "getMRDetails env = Some d"
  shows "handleReview env w
           = reviewAndPersist env d (max 0 (int (length diffs) - MAX_FILES))
               (collectChunks env d (slice diffs 0 MAX_FILES)) (setStatus PROCESSING w)"
  using assms by (simp add: handleReview_def Let_def)


lemma handleReview_completed:
  assumes "enabled env" and "getMRDiffs env = Some diffs" and "diffs \<noteq> []"
    and "fst (handleReview env w) = Returned"
  shows "\<exists>n. review (snd (handleReview env w))
               = (review w)\<lparr> reviewContent := IssuesContent (retainedIssues env w (snd (handleReview env w))),
                     qualityScore := mathMax0 (jsMinus (Num 100)
                       (impactSum (retainedIssues env w (snd (handleReview env w))))),
                     issuesFound := length (retainedIssues env w (snd (handleReview env w))),
                     suggestionsCount := length (retainedIssues env w (snd (handleReview env w))),
                     status := COMPLETED \<rparr>
           \<and> mrNotes (snd (handleReview env w))
               = mrNotes w @ [summaryOf (retainedIssues env w (snd (handleReview env w)))
                   (jsMinus (Num 100) (impactSum (retainedIssues env w (snd (handleReview env w)))))
                   (max 0 (int (length diffs) - MAX_FILES)) n]"
proof -
  obtain d where d: "getMRDetails env = Some d"
    using assms(2) getMRDiffs_details by blast
  let ?sk = "max 0 (int (length diffs) - MAX_FILES)"
  let ?cs = "collectChunks env d (slice diffs 0 MAX_FILES)"
  let ?w = "setStatus PROCESSING w"
  have run: "handleReview env w = reviewAndPersist env d ?sk ?cs ?w"
    using assms(1-3) d by (rule handleReview_review_stage)
  then have "fst (reviewAndPersist env d ?sk ?cs ?w) = Returned"
    using assms(4) by simp
  then obtain new n where fin:
      "verifyCalls (snd (reviewAndPersist env d ?sk ?cs ?w)) = verifyCalls ?w @ new"
      "review (snd (reviewAndPersist env d ?sk ?cs ?w))
         = (review ?w)\<lparr> reviewContent := IssuesContent (retainedOf env new),
                         qualityScore := mathMax0 (jsMinus (Num 100) (impactSum (retainedOf env new))),
                         issuesFound := length (retainedOf env new),
                         suggestionsCount := length (retainedOf env new),
                         status := COMPLETED \<rparr>"
      "mrNotes (snd (reviewAndPersist env d ?sk ?cs ?w))
         = mrNotes ?w @ [summaryOf (retainedOf env new)
                           (jsMinus (Num 100) (impactSum (retainedOf env new))) ?sk n]"
    using reviewAndPersist_returned [of env d ?sk ?cs ?w] by blast
  have "retainedIssues env w (snd (handleReview env w)) = retainedOf env new"
    using fin(1) by (simp add: retainedIssues_def newEntries_def run setStatus_def)
  then show ?thesis
    using fin(2,3) by (intro exI [of _ n]) (simp add: run setStatus_def)
qed

text \<open>Off the inherited names the lookup is the impact map with its fallback.\<close>

lemma severityImpact_impact: "\<not> inherited sev \<Longrightarrow> severityImpact sev = Num (impact sev)"
  by (simp add: severityImpact_def impact_def)

lemma impactSum_impact:
  "\<forall>i\<in>set is. \<not> inherited (severity i)
     \<Longrightarrow> impactSum is = Num (\<Sum>i\<leftarrow>is. impact (severity i))"
  by (induction "is") (simp_all add: severityImpact_impact jsPlus_def)

text \<open>
  C1. For every job that reaches the posting and persistence stage (LLM enabled, at least
  one diff, the job returns without an error), the persisted review has status
  \<open>COMPLETED\<close>, its content is the list of retained issues (those the verifier judged
  valid), and \<open>issuesFound\<close> and \<open>suggestionsCount\<close> are their number. \<open>qualityScore\<close> is
  \<^verbatim>\<open>Math.max(0, 100 - sum of the impacts)\<close> as JavaScript computes it; when no retained
  severity names an inherited member of the impact table, that is the number
  \<open>max 0 (100 - sum of the impacts)\<close>, the impacts being 15, 10, 5 and 2 for critical,
  high, medium and low (and 2 for any other such severity). The job takes the batched or
  the individual path as the batching decision says; the statement covers both.
\<close>

theorem handleReview_persisted_review:
  assumes "enabled env" and "getMRDiffs env = Some diffs" and "diffs \<noteq> []"
    and "fst (handleReview env w) = Returned"
    and "retained = retainedIssues env w (snd (handleReview env w))"
  shows "status (review (snd (handleReview env w))) = COMPLETED
    \<and> reviewContent (review (snd (handleReview env w))) = IssuesContent retained
    \<and> issuesFound (review (snd (handleReview env w))) = length retained
    \<and> suggestionsCount (review (snd (handleReview env w))) = length retained
    \<and> qualityScore (review (snd (handleReview env w)))
        = mathMax0 (jsMinus (Num 100) (impactSum retained))
    \<and> ((\<forall>i\<in>set retained. \<not> inherited (severity i))
        \<longrightarrow> qualityScore (review (snd (handleReview env w)))
              = Num (max 0 (100 - (\<Sum>i\<leftarrow>retained. impact (severity i)))))
    \<and> impact ''critical'' = 15 \<and> impact ''high'' = 10
    \<and> impact ''medium'' = 5 \<and> impact ''low'' = 2"
proof -
  have table: "impact ''critical'' = 15 \<and> impact ''high'' = 10
      \<and> impact ''medium'' = 5 \<and> impact ''low'' = 2"
    by (simp add: impact_def)
  have "\<exists>n::nat. review (snd (handleReview env w))
      = (review w)\<lparr> reviewContent := IssuesContent retained,
            qualityScore := mathMax0 (jsMinus (Num 100) (impactSum retained)),
            issuesFound := length retained,
            suggestionsCount := length retained,
            status := COMPLETED \<rparr>"
    using handleReview_completed [OF assms(1-4)] unfolding assms(5) by blast
  then have row: "status (review (snd (handleReview env w))) = COMPLETED"
      "reviewContent (review (snd (handleReview env w))) = IssuesContent retained"
      "issuesFound (review (snd (handleReview env w))) = length retained"
      "suggestionsCount (review (snd (handleReview env w))) = length retained"
      "qualityScore (review (snd (handleReview env w)))
         = mathMax0 (jsMinus (Num 100) (impactSum retained))"
    by simp_all
  have number: "(\<forall>i\<in>set retained. \<not> inherited (severity i))
      \<longrightarrow> qualityScore (review (snd (handleReview env w)))
            = Num (max 0 (100 - (\<Sum>i\<leftarrow>retained. impact (severity i))))"
    using row(5) by (simp add: impactSum_impact jsMinus_def mathMax0_def)
  show ?thesis
    by (rule conjI [OF row(1) conjI [OF row(2) conjI [OF row(3) conjI [OF row(4)
          conjI [OF row(5) conjI [OF number table]]]]]])
qed

lemma example_job_setup:
  "enabled (jobEnv ds raw)"
  "getMRDiffs (jobEnv ds raw) = Some ds"
  "getMRDetails (jobEnv ds raw) = Some \<lparr> baseSha = ''b'', headSha = ''h'', startSha = ''s'' \<rparr>"
  "noteCreate (jobEnv ds raw)"
  by (simp_all add: jobEnv_def getMRDiffs_def getMRDetails_def)

lemma example_jobs_return:
  "fst (handleReview (jobEnv twoDiffs happyIssues) world0) = Returned"
  "fst (handleReview (jobEnv oneDiff happyIssues) world0) = Returned"
  "fst (handleReview (jobEnv twoDiffs criticalIssues) world0) = Returned"
  by code_simp+

lemma happy_job_retained:
  "retainedIssues (jobEnv twoDiffs happyIssues) world0
      (snd (handleReview (jobEnv twoDiffs happyIssues) world0))
     = [\<lparr> issueFile = ''utils.ts'', line = 12, severity = ''high'', issueType = ''logic'',
          message = ''off by one'', suggestion = ''fix it'' \<rparr>,
        \<lparr> issueFile = ''main.ts'', line = 4, severity = ''low'', issueType = ''style'',
          message = ''long line'', suggestion = ''fix it'' \<rparr>]"
  by code_simp

lemma individual_job_retained:
  "retainedIssues (jobEnv oneDiff happyIssues) world0
      (snd (handleReview (jobEnv oneDiff happyIssues) world0))
     = [\<lparr> issueFile = ''utils.ts'', line = 12, severity = ''high'', issueType = ''logic'',
          message = ''off by one'', suggestion = ''fix it'' \<rparr>,
        \<lparr> issueFile = ''utils.ts'', line = 4, severity = ''low'', issueType = ''style'',
          message = ''long line'', suggestion = ''fix it'' \<rparr>]"
  by code_simp

lemma severities_not_inherited:
  "\<not> inherited ''critical''" "\<not> inherited ''high''" "\<not> inherited ''medium''" "\<not> inherited ''low''"
  by (simp_all add: inherited_def objectPrototypeMembers_def)

theorem handleReview_persisted_review_witness:
  "status (review (snd (handleReview (jobEnv twoDiffs happyIssues) world0))) = COMPLETED
   \<and> qualityScore (review (snd (handleReview (jobEnv twoDiffs happyIssues) world0))) = Num 88
   \<and> issuesFound (review (snd (handleReview (jobEnv twoDiffs happyIssues) world0))) = 2
   \<and> suggestionsCount (review (snd (handleReview (jobEnv twoDiffs happyIssues) world0))) = 2
   \<and> status (review (snd (handleReview (jobEnv oneDiff happyIssues) world0))) = COMPLETED
   \<and> qualityScore (review (snd (handleReview (jobEnv oneDiff happyIssues) world0))) = Num 88
   \<and> issuesFound (review (snd (handleReview (jobEnv oneDiff happyIssues) world0))) = 2
   \<and> suggestionsCount (review (snd (handleReview (jobEnv oneDiff happyIssues) world0))) = 2"
proof -
  have ne: "twoDiffs \<noteq> []" "oneDiff \<noteq> []"
    by (simp_all add: twoDiffs_def oneDiff_def)
  have batched:
    "status (review (snd (handleReview (jobEnv twoDiffs happyIssues) world0))) = COMPLETED
     \<and> qualityScore (review (snd (handleReview (jobEnv twoDiffs happyIssues) world0))) = Num 88
     \<and> issuesFound (review (snd (handleReview (jobEnv twoDiffs happyIssues) world0))) = 2
     \<and> suggestionsCount (review (snd (handleReview (jobEnv twoDiffs happyIssues) world0))) = 2"
    using handleReview_persisted_review
      [OF example_job_setup(1,2) ne(1) example_jobs_return(1) happy_job_retained [symmetric]]
    by (simp add: severities_not_inherited severityImpact_impact impact_def jsPlus_def
        jsMinus_def mathMax0_def)
  have individual:
    "status (review (snd (handleReview (jobEnv oneDiff happyIssues) world0))) = COMPLETED
     \<and> qualityScore (review (snd (handleReview (jobEnv oneDiff happyIssues) world0))) = Num 88
     \<and> issuesFound (review (snd (handleReview (jobEnv oneDiff happyIssues) world0))) = 2
     \<and> suggestionsCount (review (snd (handleReview (jobEnv oneDiff happyIssues) world0))) = 2"
    using handleReview_persisted_review
      [OF example_job_setup(1,2) ne(2) example_jobs_return(2) individual_job_retained [symmetric]]
    by (simp add: severities_not_inherited severityImpact_impact impact_def jsPlus_def
        jsMinus_def mathMax0_def)
  from batched individual show ?thesis
    by simp
qed








text \<open>
  C10. The summary comment renders the score before clamping. For every job that reaches
  the posting stage and whose retained issues have impacts summing to more than 100 (no
  retained severity naming an inherited member of the impact table, so that the sum is a
  number), the one summary posted shows the negative score \<open>100 - sum\<close>, while the
  persisted \<open>qualityScore\<close> is 0.
\<close>

theorem handleReview_summary_unclamped:
  assumes "enabled env" and "getMRDiffs env = Some diffs" and "diffs \<noteq> []"
    and "fst (handleReview env w) = Returned"
    and "retained = retainedIssues env w (snd (handleReview env w))"
    and "\<forall>i\<in>set retained. \<not> inherited (severity i)"
    and "100 < (\<Sum>i\<leftarrow>retained. impact (severity i))"
  shows "\<exists>s. mrNotes (snd (handleReview env w)) = mrNotes w @ [s]
    \<and> scoreCell s
        = ''**-'' @ showNat (nat ((\<Sum>i\<leftarrow>retained. impact (severity i)) - 100)) @ ''/100**''
    \<and> scoreBand s = Poor
    \<and> qualityScore (review (snd (handleReview env w))) = Num 0"
proof -
  let ?sum = "\<Sum>i\<leftarrow>retained. impact (severity i)"
  have raw: "jsMinus (Num 100) (impactSum retained) = Num (100 - ?sum)"
    using assms(6) by (simp add: impactSum_impact jsMinus_def)
  obtain n where fin: "review (snd (handleReview env w))
      = (review w)\<lparr> reviewContent := IssuesContent retained,
            qualityScore := mathMax0 (jsMinus (Num 100) (impactSum retained)),
            issuesFound := length retained,
            suggestionsCount := length retained,
            status := COMPLETED \<rparr>"
    "mrNotes (snd (handleReview env w))
      = mrNotes w @ [summaryOf retained (jsMinus (Num 100) (impactSum retained))
                       (max 0 (int (length diffs) - MAX_FILES)) n]"
    using handleReview_completed [OF assms(1-4)] unfolding assms(5) by blast
  let ?s = "summaryOf retained (Num (100 - ?sum)) (max 0 (int (length diffs) - MAX_FILES)) n"
  have cell: "scoreCell ?s = ''**-'' @ showNat (nat (?sum - 100)) @ ''/100**''"
    using assms(7) by (simp add: summaryOf_def showNumber_def showInt_def)
  have band: "scoreBand ?s = Poor"
    using assms(7) by (simp add: summaryOf_def jsGe_def)
  have "qualityScore (review (snd (handleReview env w))) = mathMax0 (Num (100 - ?sum))"
    using fin(1) by (simp add: raw)
  then have score: "qualityScore (review (snd (handleReview env w))) = Num 0"
    using assms(7) by (simp add: mathMax0_def)
  have posted: "mrNotes (snd (handleReview env w)) = mrNotes w @ [?s]"
    using fin(2) by (simp only: raw)
  show ?thesis
    by (rule exI [of _ ?s]) (rule conjI [OF posted conjI [OF cell conjI [OF band score]]])
qed

lemma critical_job_retained:
  "retainedIssues (jobEnv twoDiffs criticalIssues) world0
      (snd (handleReview (jobEnv twoDiffs criticalIssues) world0))
     = replicate 7 \<lparr> issueFile = ''utils.ts'', line = 12, severity = ''critical'',
         issueType = ''security'', message = ''XSS'', suggestion = ''fix it'' \<rparr>"
  by code_simp

lemma showNat_5: "showNat 5 = ''5''"
  by (simp add: showNat.simps)

theorem handleReview_summary_unclamped_witness:
  "map scoreCell (mrNotes (snd (handleReview (jobEnv twoDiffs criticalIssues) world0)))
     = [''**-5/100**'']
   \<and> qualityScore (review (snd (handleReview (jobEnv twoDiffs criticalIssues) world0))) = Num 0"
proof -
  let ?critical = "\<lparr> issueFile = ''utils.ts'', line = 12, severity = ''critical'',
         issueType = ''security'', message = ''XSS'', suggestion = ''fix it'' \<rparr>"
  have ne: "twoDiffs \<noteq> []"
    by (simp add: twoDiffs_def)
  have clean: "\<forall>i\<in>set (replicate 7 ?critical). \<not> inherited (severity i)"
    by (simp add: severities_not_inherited)
  have total: "(\<Sum>i\<leftarrow>replicate 7 ?critical. impact (severity i)) = 105"
    by (simp add: impact_def numeral_eq_Suc)
  have over: "100 < (\<Sum>i\<leftarrow>replicate 7 ?critical. impact (severity i))"
    by (simp only: total)
  have start: "mrNotes world0 = []"
    by (simp add: world0_def)
  show ?thesis
    using handleReview_summary_unclamped
      [OF example_job_setup(1) example_job_setup(2) ne example_jobs_return(3)
          critical_job_retained [symmetric] clean over]
    by (auto simp only: total start append_Nil list.map) (simp add: showNat_5)
qed

lemma onlyKnownFiles_refl: "onlyKnownFiles known lw lw"
  unfolding onlyKnownFiles_def
  by (intro exI [of _ "[]"]) simp

lemma onlyKnownFiles_trans:
  assumes "onlyKnownFiles known a b" and "onlyKnownFiles known b c"
  shows "onlyKnownFiles known a c"
proof -
  obtain c1 p1 k1 where one: "verifyCalls (snd b) = verifyCalls (snd a) @ c1"
      "inlinePosts (snd b) = inlinePosts (snd a) @ p1" "allIssues (fst b) = allIssues (fst a) @ k1"
      "\<forall>x\<in>set c1. issueFile (fst x) \<in> known" "\<forall>x\<in>set p1. postFilePath x \<in> known"
      "\<forall>x\<in>set k1. issueFile x \<in> known"
    using assms(1) unfolding onlyKnownFiles_def by blast
  obtain c2 p2 k2 where two: "verifyCalls (snd c) = verifyCalls (snd b) @ c2"
      "inlinePosts (snd c) = inlinePosts (snd b) @ p2" "allIssues (fst c) = allIssues (fst b) @ k2"
      "\<forall>x\<in>set c2. issueFile (fst x) \<in> known" "\<forall>x\<in>set p2. postFilePath x \<in> known"
      "\<forall>x\<in>set k2. issueFile x \<in> known"
    using assms(2) unfolding onlyKnownFiles_def by blast
  show ?thesis
    unfolding onlyKnownFiles_def
    using one two
    by (intro exI [of _ "c1 @ c2"] exI [of _ "p1 @ p2"] exI [of _ "k1 @ k2"]) auto
qed

lemma onlyKnownFiles_fold:
  assumes "\<And>x lw. onlyKnownFiles known lw (f x lw)"
  shows "onlyKnownFiles known lw (fold f xs lw)"
proof (induction xs arbitrary: lw)
  case Nil
  show ?case by (simp add: onlyKnownFiles_refl)
next
  case (Cons x xs)
  have "onlyKnownFiles known lw (f x lw)" by (rule assms)
  moreover have "onlyKnownFiles known (f x lw) (fold f xs (f x lw))" by (rule Cons.IH)
  ultimately show ?case
    using onlyKnownFiles_trans by simp
qed

lemma batchedIssue_known:
  "onlyKnownFiles (filename ` set cs) lw (batchedIssue env d cs issue lw)"
proof (cases "find (\<lambda>c. filename c = issueFile issue) cs")
  case None
  then show ?thesis
    by (simp add: batchedIssue_def onlyKnownFiles_refl)
next
  case (Some chunkForIssue)
  then have "chunkForIssue \<in> set cs" "filename chunkForIssue = issueFile issue"
    by (auto simp: find_Some_iff)
  then have known: "issueFile issue \<in> filename ` set cs"
    by (metis image_eqI)
  let ?ctx = "\<lparr> filePath = issueFile issue, sha = headSha d,
                 fileContext = chunkContext chunkForIssue \<rparr>"
  let ?w1 = "(snd lw)\<lparr> verifyCalls := verifyCalls (snd lw) @ [(issue, ?ctx)] \<rparr>"
  show ?thesis
  proof (cases "isValid (verifyIssue (repositoryFile env) issue ?ctx)")
    case False
    then have "batchedIssue env d cs issue lw = (fst lw, ?w1)"
      using Some by (simp add: batchedIssue_def Let_def)
    then show ?thesis
      unfolding onlyKnownFiles_def using known
      by (intro exI [of _ "[(issue, ?ctx)]"] exI [of _ "[]"]) simp
  next
    case True
    show ?thesis
    proof (cases "postsInline (severity issue)")
      case True
      with \<open>isValid (verifyIssue (repositoryFile env) issue ?ctx)\<close> Some
      have "batchedIssue env d cs issue lw
          = ((fst lw)\<lparr> allIssues := allIssues (fst lw) @ [issue],
                          totalScore := jsMinus (totalScore (fst lw)) (severityImpact (severity issue)) \<rparr>,
             postInlineComment d (issueFile issue) chunkForIssue issue ?w1)"
        by (simp add: batchedIssue_def Let_def)
      then show ?thesis
        unfolding onlyKnownFiles_def using known
        by (intro exI [of _ "[(issue, ?ctx)]"]
              exI [of _ "drop (length (inlinePosts (snd lw)))
                           (inlinePosts (postInlineComment d (issueFile issue) chunkForIssue issue ?w1))"]
              exI [of _ "[issue]"])
           (simp add: postInlineComment_def)
    next
      case False
      with \<open>isValid (verifyIssue (repositoryFile env) issue ?ctx)\<close> Some
      have "batchedIssue env d cs issue lw
          = ((fst lw)\<lparr> allIssues := allIssues (fst lw) @ [issue],
                          totalScore := jsMinus (totalScore (fst lw)) (severityImpact (severity issue)) \<rparr>,
             ?w1)"
        by (simp add: batchedIssue_def Let_def)
      then show ?thesis
        unfolding onlyKnownFiles_def using known
        by (intro exI [of _ "[(issue, ?ctx)]"] exI [of _ "[]"] exI [of _ "[issue]"]) simp
    qed
  qed
qed

lemma reviewBatched_known:
  "onlyKnownFiles (filename ` set cs) lw (reviewBatched env d cs lw)"
proof -
  obtain r w1 where call: "reviewMultipleChunks env cs (snd lw) = (r, w1)"
    by (cases "reviewMultipleChunks env cs (snd lw)")
  obtain k where "w1 = (snd lw)\<lparr> llmCalls := llmCalls (snd lw) @ [Batched cs],
      llmAttempts := llmAttempts (snd lw) @ replicate k (Batched cs) \<rparr>"
    using reviewMultipleChunks_world [of env cs "snd lw"] call by auto
  then have "onlyKnownFiles (filename ` set cs) lw ((fst lw)\<lparr> filesProcessed := length cs \<rparr>, w1)"
    unfolding onlyKnownFiles_def
    by (intro exI [of _ "[]"]) simp
  moreover have "onlyKnownFiles (filename ` set cs) ((fst lw)\<lparr> filesProcessed := length cs \<rparr>, w1)
      (fold (batchedIssue env d cs) (issues r) ((fst lw)\<lparr> filesProcessed := length cs \<rparr>, w1))"
    by (rule onlyKnownFiles_fold) (rule batchedIssue_known)
  ultimately show ?thesis
    using call onlyKnownFiles_trans by (simp add: reviewBatched_def Let_def)
qed

text \<open>
  C9. On the batched path an issue whose \<open>file\<close> is not the filename of any collected
  chunk is skipped entirely: the step of the loop for it changes neither the locals
  (\<open>allIssues\<close>, from which the summary and \<open>issuesFound\<close>/\<open>suggestionsCount\<close> are taken,
  and \<open>totalScore\<close>) nor the world (no verification, no inline comment); the whole loop,
  and so the batched review, does what it would do on the answer without such issues; and
  every verifier call, inline comment and retained issue the batched review adds is for
  the file of some chunk.
\<close>

theorem batched_unknown_file_skipped:
  "(issueFile issue \<notin> filename ` set cs \<longrightarrow> batchedIssue env d cs issue lw = lw)
   \<and> fold (batchedIssue env d cs) is lw
       = fold (batchedIssue env d cs) (filter (\<lambda>i. issueFile i \<in> filename ` set cs) is) lw
   \<and> reviewBatched env d cs lw
       = fold (batchedIssue env d cs)
           (filter (\<lambda>i. issueFile i \<in> filename ` set cs)
              (issues (fst (reviewMultipleChunks env cs (snd lw)))))
           ((fst lw)\<lparr> filesProcessed := length cs \<rparr>, snd (reviewMultipleChunks env cs (snd lw)))
   \<and> onlyKnownFiles (filename ` set cs) lw (reviewBatched env d cs lw)"
proof -
  have skip: "batchedIssue env d cs i x = x" if "issueFile i \<notin> filename ` set cs" for i x
  proof -
    have "find (\<lambda>c. filename c = issueFile i) cs = None"
      using that by (force simp: find_None_iff)
    then show ?thesis
      by (simp add: batchedIssue_def)
  qed
  have loop: "fold (batchedIssue env d cs) js x
      = fold (batchedIssue env d cs) (filter (\<lambda>i. issueFile i \<in> filename ` set cs) js) x" for js x
    by (induction js arbitrary: x) (simp_all add: skip)
  have batched: "reviewBatched env d cs lw
       = fold (batchedIssue env d cs)
           (filter (\<lambda>i. issueFile i \<in> filename ` set cs)
              (issues (fst (reviewMultipleChunks env cs (snd lw)))))
           ((fst lw)\<lparr> filesProcessed := length cs \<rparr>, snd (reviewMultipleChunks env cs (snd lw)))"
    using loop [of "issues (fst (reviewMultipleChunks env cs (snd lw)))"]
    by (simp add: reviewBatched_def Let_def)
  have step: "issueFile issue \<notin> filename ` set cs \<longrightarrow> batchedIssue env d cs issue lw = lw"
    using skip [of issue lw] by (rule impI)
  show ?thesis
    by (rule conjI [OF step conjI [OF loop [of "is" lw] conjI [OF batched reviewBatched_known]]])
qed

theorem batched_unknown_file_skipped_witness:
  "issueFile strayIssue \<notin> filename ` set [collected ''utils.ts'', collected ''main.ts'']
   \<and> batchedIssue (jobEnv twoDiffs happyIssues) someDetails
        [collected ''utils.ts'', collected ''main.ts''] strayIssue (freshLocals, world0)
       = (freshLocals, world0)"
proof -
  have "issueFile strayIssue \<notin> filename ` set [collected ''utils.ts'', collected ''main.ts'']"
    by (simp add: strayIssue_def collected_def)
  then show ?thesis
    using batched_unknown_file_skipped
      [of strayIssue "[collected ''utils.ts'', collected ''main.ts'']"
          "jobEnv twoDiffs happyIssues" someDetails "(freshLocals, world0)" "[]"]
    by simp
qed

end
